theory Spec2Isabelle
  imports Complex_Main "HOL-Library.Log_Nat" "HOL-Library.Sublist"
begin

section \<open>Numbers of the Go program\<close>

text \<open>
  Go's \<open>float64\<close> is modelled by its values: a finite binary64 number is the rational
  it denotes, next to the two infinities and NaN. Every arithmetic operation computes the
  exact rational result and rounds it to the nearest binary64 number, ties to even
  (53 significant bits, exponents from \<open>-1074\<close> for the last bit of a subnormal up to
  overflow at \<open>2 ^ 1024\<close>). The sign of a zero is not represented: the two zeros
  compare equal in Go, and the only zeros that reach a divisor in this program come from
  integer conversions, which give \<open>+0\<close>.

  Go's \<open>int\<close> is modelled by \<open>int\<close>: indices and picture dimensions stay far
  from the 64-bit limits.
\<close>

datatype f64 = Finite rat | PosInf | NegInf | NaN

definition f64_exponent :: "rat \<Rightarrow> int" where
  \<comment> \<open>the \<open>e\<close> with \<open>2 ^ e \<le> \<bar>q\<bar> < 2 ^ (e + 1)\<close>, for \<open>q \<noteq> 0\<close>\<close>
  "f64_exponent q =
     (let a = \<bar>q\<bar> in
      if a \<ge> 1 then int (floorlog 2 (nat \<lfloor>a\<rfloor>)) - 1
      else - int (floorlog 2 (nat (\<lceil>1 / a\<rceil> - 1))))"

definition round_half_even :: "rat \<Rightarrow> int" where
  "round_half_even x =
     (let f = \<lfloor>x\<rfloor>; d = x - of_int f in
      if d < 1 / 2 then f
      else if d > 1 / 2 then f + 1
      else if even f then f else f + 1)"

definition f64_round :: "rat \<Rightarrow> f64" where
  "f64_round q =
     (if q = 0 then Finite 0
      else
        let u = max (- 1074) (f64_exponent q - 52);
            r = of_int (round_half_even (q / (2 powi u))) * (2 powi u)
        in if r \<noteq> 0 \<and> f64_exponent r \<ge> 1024 then (if r > 0 then PosInf else NegInf)
           else Finite r)"

fun f64_neg :: "f64 \<Rightarrow> f64" where
  "f64_neg (Finite a) = Finite (- a)"
| "f64_neg PosInf = NegInf"
| "f64_neg NegInf = PosInf"
| "f64_neg NaN = NaN"

fun f64_add :: "f64 \<Rightarrow> f64 \<Rightarrow> f64" where
  "f64_add NaN _ = NaN"
| "f64_add _ NaN = NaN"
| "f64_add PosInf NegInf = NaN"
| "f64_add NegInf PosInf = NaN"
| "f64_add PosInf _ = PosInf"
| "f64_add _ PosInf = PosInf"
| "f64_add NegInf _ = NegInf"
| "f64_add _ NegInf = NegInf"
| "f64_add (Finite a) (Finite b) = f64_round (a + b)"

definition f64_sub :: "f64 \<Rightarrow> f64 \<Rightarrow> f64" where
  "f64_sub a b = f64_add a (f64_neg b)"

fun f64_sign :: "f64 \<Rightarrow> int" where
  "f64_sign (Finite a) = (if a > 0 then 1 else if a < 0 then - 1 else 0)"
| "f64_sign PosInf = 1"
| "f64_sign NegInf = - 1"
| "f64_sign NaN = 0"

definition f64_inf :: "int \<Rightarrow> f64" where
  "f64_inf s = (if s > 0 then PosInf else if s < 0 then NegInf else NaN)"

fun f64_mul :: "f64 \<Rightarrow> f64 \<Rightarrow> f64" where
  "f64_mul NaN _ = NaN"
| "f64_mul _ NaN = NaN"
| "f64_mul (Finite a) (Finite b) = f64_round (a * b)"
| "f64_mul x y = f64_inf (f64_sign x * f64_sign y)"

fun f64_div :: "f64 \<Rightarrow> f64 \<Rightarrow> f64" where
  "f64_div NaN _ = NaN"
| "f64_div _ NaN = NaN"
| "f64_div (Finite a) (Finite b) =
     (if b = 0 then f64_inf (f64_sign (Finite a)) else f64_round (a / b))"
| "f64_div (Finite a) _ = Finite 0"
| "f64_div x (Finite b) = f64_inf (f64_sign x * (if b < 0 then - 1 else 1))"
| "f64_div _ _ = NaN"

fun f64_lt :: "f64 \<Rightarrow> f64 \<Rightarrow> bool" where
  "f64_lt (Finite a) (Finite b) = (a < b)"
| "f64_lt (Finite a) PosInf = True"
| "f64_lt NegInf (Finite b) = True"
| "f64_lt NegInf PosInf = True"
| "f64_lt _ _ = False"

fun f64_le :: "f64 \<Rightarrow> f64 \<Rightarrow> bool" where
  "f64_le NaN _ = False"
| "f64_le _ NaN = False"
| "f64_le (Finite a) (Finite b) = (a \<le> b)"
| "f64_le NegInf _ = True"
| "f64_le _ PosInf = True"
| "f64_le _ _ = False"

definition f64_gt :: "f64 \<Rightarrow> f64 \<Rightarrow> bool" where
  "f64_gt a b = f64_lt b a"

definition f64_ge :: "f64 \<Rightarrow> f64 \<Rightarrow> bool" where
  "f64_ge a b = f64_le b a"

definition f64_eq :: "f64 \<Rightarrow> f64 \<Rightarrow> bool" where
  \<comment> \<open>Go's \<open>==\<close>: NaN equals nothing\<close>
  "f64_eq a b = (a \<noteq> NaN \<and> a = b)"

definition f64_lit :: "rat \<Rightarrow> f64" where
  \<comment> \<open>a decimal literal of the source or of a JSON document: the nearest binary64 number\<close>
  "f64_lit q = f64_round q"

definition f64_of_int :: "int \<Rightarrow> f64" where
  "f64_of_int n = f64_round (of_int n)"

definition f64_to_int :: "f64 \<Rightarrow> int" where
  \<comment> \<open>\<open>int(x)\<close>: truncation toward zero. Outside the range of a 64-bit integer Go leaves
      the result to the implementation; the value of amd64 is taken.\<close>
  "f64_to_int x =
     (case x of
        Finite q \<Rightarrow>
          (let t = (if q \<ge> 0 then \<lfloor>q\<rfloor> else \<lceil>q\<rceil>)
           in if - (2 ^ 63) \<le> t \<and> t < 2 ^ 63 then t else - (2 ^ 63))
      | _ \<Rightarrow> - (2 ^ 63))"

subsection \<open>Evaluating the arithmetic on numerals\<close>

lemma floor_rat_numeral_div [simp]:
  "\<lfloor>(numeral a :: rat) / numeral b\<rfloor> = numeral a div numeral b"
  using floor_divide_of_int_eq [of "numeral a" "numeral b", where ?'a = rat] by simp

lemma floor_rat_neg_numeral_div [simp]:
  "\<lfloor>- ((numeral a :: rat) / numeral b)\<rfloor> = - numeral a div numeral b"
  using floor_divide_of_int_eq [of "- numeral a" "numeral b", where ?'a = rat] by simp

lemma ceiling_rat_numeral_div [simp]:
  "\<lceil>(numeral a :: rat) / numeral b\<rceil> = - (- numeral a div numeral b)"
  unfolding ceiling_def by simp

lemma ceiling_rat_neg_numeral_div [simp]:
  "\<lceil>- ((numeral a :: rat) / numeral b)\<rceil> = - (numeral a div numeral b)"
  unfolding ceiling_def by simp

named_theorems f64_eval \<open>equations that evaluate the arithmetic at concrete numbers\<close>

lemmas [f64_eval] = f64_round_def f64_exponent_def round_half_even_def Let_def
  compute_floorlog power_int_minus f64_lit_def f64_of_int_def f64_to_int_def f64_sub_def
  f64_ge_def f64_gt_def f64_eq_def

section \<open>Segmenter (internal/playlist/segment.go)\<close>

record Segment =
  Index :: int
  Start :: f64
  End :: f64
  Duration :: f64

text \<open>
  The loop of \<open>CalculateSegments\<close> over \<open>keyframes[1:]\<close>, with its three variables
  \<open>segments\<close>, \<open>segmentStart\<close> and \<open>segmentIndex\<close>.
\<close>

fun CalculateSegments_loop ::
  "f64 \<Rightarrow> f64 list \<Rightarrow> Segment list \<Rightarrow> f64 \<Rightarrow> int \<Rightarrow> Segment list \<times> f64 \<times> int" where
  "CalculateSegments_loop targetDuration [] segments segmentStart segmentIndex =
     (segments, segmentStart, segmentIndex)"
| "CalculateSegments_loop targetDuration (k # ks) segments segmentStart segmentIndex =
     (let elapsed = f64_sub k segmentStart in
      if f64_ge elapsed targetDuration
      then CalculateSegments_loop targetDuration ks
             (segments @ [\<lparr>Index = segmentIndex, Start = segmentStart, End = k,
                            Duration = f64_sub k segmentStart\<rparr>])
             k (segmentIndex + 1)
      else CalculateSegments_loop targetDuration ks segments segmentStart segmentIndex)"

definition CalculateSegments :: "f64 list \<Rightarrow> f64 \<Rightarrow> f64 \<Rightarrow> Segment list" where
  "CalculateSegments keyframes duration targetDuration =
     (case keyframes of
        [] \<Rightarrow> []
      | k0 # rest \<Rightarrow>
          (case CalculateSegments_loop targetDuration rest [] k0 0 of
             (segments, segmentStart, segmentIndex) \<Rightarrow>
               if f64_lt segmentStart duration
               then segments @ [\<lparr>Index = segmentIndex, Start = segmentStart, End = duration,
                                   Duration = f64_sub duration segmentStart\<rparr>]
               else segments))"

text \<open>
  The rule of the specification, in its words: from the cursor \<open>segment_start\<close>, the first
  subsequent keyframe \<open>k\<close> with \<open>k - segment_start \<ge> target_duration\<close> closes the
  segment \<open>[segment_start, k)\<close> and becomes the cursor; when no further keyframe does, one
  tail segment \<open>[segment_start, duration)\<close> is emitted if \<open>segment_start < duration\<close>.
\<close>

function spec_walk :: "f64 \<Rightarrow> f64 \<Rightarrow> f64 \<Rightarrow> int \<Rightarrow> f64 list \<Rightarrow> Segment list" where
  "spec_walk target_duration duration segment_start index ks =
     (case dropWhile (\<lambda>k. \<not> f64_ge (f64_sub k segment_start) target_duration) ks of
        [] \<Rightarrow>
          (if f64_lt segment_start duration
           then [\<lparr>Index = index, Start = segment_start, End = duration,
                   Duration = f64_sub duration segment_start\<rparr>]
           else [])
      | k # rest \<Rightarrow>
          \<lparr>Index = index, Start = segment_start, End = k,
            Duration = f64_sub k segment_start\<rparr>
          # spec_walk target_duration duration k (index + 1) rest)"
  by pat_completeness auto
termination
proof (relation "measure (\<lambda>(td, d, s, i, ks). length ks)", goal_cases)
  case 1
  show ?case by simp
next
  case (2 td d s i ks k rest)
  have "length (dropWhile (\<lambda>k. \<not> f64_ge (f64_sub k s) td) ks) \<le> length ks"
    by (rule length_dropWhile_le)
  with 2 show ?case by simp
qed

declare spec_walk.simps [simp del]

lemma spec_walk_Nil:
  "spec_walk td d s i [] =
     (if f64_lt s d then [\<lparr>Index = i, Start = s, End = d, Duration = f64_sub d s\<rparr>] else [])"
  by (subst spec_walk.simps) simp

lemma spec_walk_Cons:
  "spec_walk td d s i (k # ks) =
     (if f64_ge (f64_sub k s) td
      then \<lparr>Index = i, Start = s, End = k, Duration = f64_sub k s\<rparr> # spec_walk td d k (i + 1) ks
      else spec_walk td d s i ks)"
  by (subst spec_walk.simps, subst (2) spec_walk.simps) simp

lemma CalculateSegments_loop_walk:
  "(case CalculateSegments_loop td ks segs s i of
      (segments, segmentStart, segmentIndex) \<Rightarrow>
        if f64_lt segmentStart d
        then segments @ [\<lparr>Index = segmentIndex, Start = segmentStart, End = d,
                            Duration = f64_sub d segmentStart\<rparr>]
        else segments)
   = segs @ spec_walk td d s i ks"
  by (induction ks arbitrary: segs s i) (simp_all add: spec_walk_Nil spec_walk_Cons Let_def)

section \<open>Pool (internal/transcode/pool.go)\<close>

text \<open>
  The inner loop of \<open>extractSegments\<close>: from index \<open>j\<close> on, the first keyframe at
  least \<open>targetDuration\<close> after \<open>start\<close>. The outer loop follows: one pass of its body
  up to the choice of \<open>end\<close> gives the segment's end and the value of the loop variable
  \<open>i\<close> after it. \<open>end\<close> starts as the zero value; a scan that finds \<open>j\<close> sets
  \<open>end = keyframes[j]\<close> and \<open>i = j - 1\<close>; then \<open>end == 0\<close> is tested on whatever
  \<open>end\<close> holds. \<open>targetDuration\<close> is the constant 6.0 of the source.
\<close>

function extractSegments_scan :: "f64 list \<Rightarrow> f64 \<Rightarrow> f64 \<Rightarrow> nat \<Rightarrow> nat option" where
  "extractSegments_scan keyframes start targetDuration j =
     (if j < length keyframes
      then (if f64_ge (f64_sub (keyframes ! j) start) targetDuration then Some j
            else extractSegments_scan keyframes start targetDuration (j + 1))
      else None)"
  by pat_completeness auto
termination
  by (relation "measure (\<lambda>(keyframes, start, targetDuration, j). length keyframes - j)") auto

declare extractSegments_scan.simps [simp del]

definition extractSegments_end :: "f64 list \<Rightarrow> f64 \<Rightarrow> nat \<Rightarrow> f64 \<times> nat" where
  "extractSegments_end keyframes duration i =
     (let start = keyframes ! i;
          found = extractSegments_scan keyframes start (f64_lit 6) (i + 1);
          end0 = (case found of Some j \<Rightarrow> keyframes ! j | None \<Rightarrow> Finite 0);
          i1 = (case found of Some j \<Rightarrow> j - 1 | None \<Rightarrow> i)
      in if f64_eq end0 (Finite 0)
         then (if int i1 < int (length keyframes) - 1
               then (keyframes ! (length keyframes - 1), length keyframes)
               else (duration, i1))
         else (end0, i1))"

lemma extractSegments_scan_ge:
  "extractSegments_scan keyframes start td j = Some j' \<Longrightarrow> j \<le> j'"
proof (induction keyframes start td j rule: extractSegments_scan.induct)
  case (1 keyframes start td j)
  show ?case
  proof (cases "j < length keyframes \<and> \<not> f64_ge (f64_sub (keyframes ! j) start) td")
    case True
    with "1.prems" have "extractSegments_scan keyframes start td (j + 1) = Some j'"
      by (subst (asm) extractSegments_scan.simps) simp
    with "1.IH" True have "j + 1 \<le> j'" by simp
    then show ?thesis by simp
  next
    case False
    with "1.prems" show ?thesis
      by (subst (asm) extractSegments_scan.simps) (auto split: if_splits)
  qed
qed

lemma extractSegments_end_ge: "i \<le> snd (extractSegments_end keyframes duration i)"
proof -
  have "i \<le> j - 1"
    if "extractSegments_scan keyframes (keyframes ! i) (f64_lit 6) (i + 1) = Some j" for j
    using extractSegments_scan_ge [OF that] by simp
  then show ?thesis
    by (auto simp: extractSegments_end_def Let_def split: option.splits)
qed

function extractSegments_loop ::
  "f64 list \<Rightarrow> f64 \<Rightarrow> int \<Rightarrow> int \<Rightarrow> nat \<Rightarrow> int \<Rightarrow> Segment list \<Rightarrow> Segment list" where
  "extractSegments_loop keyframes duration startIdx endIdx i idx segments =
     (if i < length keyframes
      then
        (let start = keyframes ! i;
             end = fst (extractSegments_end keyframes duration i);
             i' = snd (extractSegments_end keyframes duration i);
             segments' =
               (if idx \<ge> startIdx \<and> idx \<le> endIdx
                then segments @ [\<lparr>Index = idx, Start = start, End = end,
                                    Duration = f64_sub end start\<rparr>]
                else segments)
         in if idx + 1 > endIdx then segments'
            else extractSegments_loop keyframes duration startIdx endIdx (i' + 1) (idx + 1)
                   segments')
      else segments)"
  by pat_completeness auto
termination
proof (relation "measure (\<lambda>(keyframes, duration, startIdx, endIdx, i, idx, segments).
                    length keyframes + 1 - i)", goal_cases)
  case 1
  show ?case by simp
next
  case (2 keyframes duration startIdx endIdx i idx segments start e i' segments')
  have "i \<le> snd (extractSegments_end keyframes duration i)"
    by (rule extractSegments_end_ge)
  with 2 show ?case by simp
qed

declare extractSegments_loop.simps [simp del]

definition extractSegments :: "f64 list \<Rightarrow> f64 \<Rightarrow> int \<Rightarrow> int \<Rightarrow> Segment list" where
  "extractSegments keyframes duration startIdx endIdx =
     extractSegments_loop keyframes duration startIdx endIdx 0 0 []"


text \<open>
  \<open>findNearestKeyframe\<close>: the loop keeps the last two keyframes that are at most
  \<open>target + 0.001\<close> and stops at the first one that is not; both variables start as the
  zero value.
\<close>

fun findNearestKeyframe_loop :: "f64 list \<Rightarrow> f64 \<Rightarrow> f64 \<Rightarrow> f64 \<Rightarrow> f64 \<times> f64" where
  "findNearestKeyframe_loop [] target prevKeyframe result = (prevKeyframe, result)"
| "findNearestKeyframe_loop (kf # kfs) target prevKeyframe result =
     (if f64_le kf (f64_add target (f64_lit (1 / 1000)))
      then findNearestKeyframe_loop kfs target result kf
      else (prevKeyframe, result))"

definition findNearestKeyframe :: "f64 list \<Rightarrow> f64 \<Rightarrow> f64" where
  "findNearestKeyframe keyframes target =
     (if keyframes = [] then Finite 0
      else
        (case findNearestKeyframe_loop keyframes target (Finite 0) (Finite 0) of
           (prevKeyframe, result) \<Rightarrow>
             if f64_gt prevKeyframe (Finite 0)
                \<and> f64_lt (f64_sub target result) (f64_lit (1 / 100))
             then prevKeyframe
             else result))"

section \<open>Rendition planner (internal/rendition/rendition.go)\<close>

text \<open>
  The fields of the domain structs carry a prefix (\<open>vs_\<close> for \<open>VideoStream\<close>,
  \<open>vr_\<close> for \<open>VideoRendition\<close>, and so on): several structs share field names.
\<close>

datatype PlaybackMethod = DirectPlay | DirectStream | Transcode

record VideoStream =
  vs_Index :: int
  vs_Codec :: string
  vs_Width :: int
  vs_Height :: int
  vs_Bitrate :: int
  vs_FrameRate :: f64

record VideoRendition =
  vr_Name :: string
  vr_Width :: int
  vr_Height :: int
  vr_Bitrate :: int
  vr_Method :: PlaybackMethod

record AudioStream =
  as_Index :: int
  as_Codec :: string
  as_Language :: string
  as_Channels :: int
  as_Bitrate :: int

record AudioRendition =
  ar_Name :: string
  ar_Codec :: string
  ar_Bitrate :: int
  ar_Channels :: int
  ar_Method :: PlaybackMethod

text \<open>\<open>fmt.Sprintf("%d", n)\<close>: the decimal digits of an integer, with a minus sign.\<close>

fun decimal :: "nat \<Rightarrow> string" where
  "decimal n =
     (if n < 10 then [''0123456789'' ! n]
      else decimal (n div 10) @ [''0123456789'' ! (n mod 10)])"

declare decimal.simps [simp del]

definition itoa :: "int \<Rightarrow> string" where
  "itoa i = (if i < 0 then CHR ''-'' # decimal (nat (- i)) else decimal (nat i))"

definition go_rem :: "int \<Rightarrow> int \<Rightarrow> int" where
  \<comment> \<open>Go's \<open>%\<close>: the remainder of the division that truncates toward zero\<close>
  "go_rem a b = sgn a * (\<bar>a\<bar> mod \<bar>b\<bar>)"

definition targetHeights :: "int list" where
  "targetHeights = [2160, 1080, 720, 480, 360]"

definition bitrateBounds :: "int \<rightharpoonup> int \<times> int" where
  \<comment> \<open>height to \<open>(min, max)\<close>\<close>
  "bitrateBounds =
     map_of [(2160, (8000000, 20000000)),
             (1080, (2000000, 8000000)),
             (720, (1000000, 4000000)),
             (480, (500000, 2000000)),
             (360, (300000, 1000000))]"

definition directStreamCodecs :: "string \<Rightarrow> bool" where
  \<comment> \<open>a \<open>map[string]bool\<close>: a missing key reads as false\<close>
  "directStreamCodecs codec = (codec = ''h264'')"

definition calculateWidth :: "int \<Rightarrow> int \<Rightarrow> int \<Rightarrow> int" where
  "calculateWidth srcWidth srcHeight targetHeight =
     (let aspectRatio = f64_div (f64_of_int srcWidth) (f64_of_int srcHeight);
          width = f64_to_int (f64_mul (f64_of_int targetHeight) aspectRatio)
      in if go_rem width 2 \<noteq> 0 then width + 1 else width)"

definition clampBitrate :: "int \<Rightarrow> int \<Rightarrow> int" where
  "clampBitrate height bitrate =
     (case bitrateBounds height of
        None \<Rightarrow> bitrate
      | Some (bmin, bmax) \<Rightarrow>
          if bitrate < bmin then bmin
          else if bitrate > bmax then bmax
          else bitrate)"

definition estimateBitrate :: "int \<Rightarrow> int" where
  "estimateBitrate height =
     (if height \<ge> 2160 then 15000000
      else if height \<ge> 1080 then 5000000
      else if height \<ge> 720 then 2500000
      else if height \<ge> 480 then 1200000
      else 800000)"

text \<open>
  The body of the loop of \<open>GenerateVideo\<close> for one target height. The two pixel counts
  are products of Go \<open>int\<close>s, which wrap at 64 bits. The sum \<open>width + 1\<close> of
  \<open>calculateWidth\<close> cannot wrap: a float64 converted to \<open>int\<close> is at most
  \<open>2^63 - 1024\<close>.
\<close>

definition int64 :: "int \<Rightarrow> int" where
  \<comment> \<open>the 64-bit two's complement value of an integer result\<close>
  "int64 x = (x + 2 ^ 63) mod 2 ^ 64 - 2 ^ 63"

definition GenerateVideo_step ::
  "VideoStream \<Rightarrow> VideoRendition list \<Rightarrow> int \<Rightarrow> VideoRendition list" where
  "GenerateVideo_step video renditions targetHeight =
     (let srcWidth = vs_Width video;
          srcHeight = vs_Height video;
          srcPixels = int64 (srcWidth * srcHeight);
          srcCodec = vs_Codec video;
          srcBitrate = (if vs_Bitrate video \<le> 0 then estimateBitrate srcHeight
                        else vs_Bitrate video)
      in if targetHeight > srcHeight then renditions
         else
           (let targetWidth = calculateWidth srcWidth srcHeight targetHeight;
                targetPixels = int64 (targetWidth * targetHeight);
                ratio = f64_div (f64_of_int targetPixels) (f64_of_int srcPixels);
                bitrate = clampBitrate targetHeight
                            (f64_to_int (f64_mul (f64_of_int srcBitrate) ratio));
                method = (if directStreamCodecs srcCodec \<and> targetHeight = srcHeight
                          then DirectStream else Transcode)
            in renditions @
               [\<lparr>vr_Name = itoa targetHeight @ ''p'', vr_Width = targetWidth,
                  vr_Height = targetHeight, vr_Bitrate = bitrate, vr_Method = method\<rparr>]))"

definition GenerateVideo :: "VideoStream \<Rightarrow> VideoRendition list" where
  "GenerateVideo video = foldl (GenerateVideo_step video) [] targetHeights"

definition passthroughCodecs :: "string \<Rightarrow> bool" where
  "passthroughCodecs codec = (codec = ''ac3'' \<or> codec = ''eac3'')"

definition GenerateAudio :: "AudioStream \<Rightarrow> AudioRendition list" where
  "GenerateAudio audio =
     [\<lparr>ar_Name = ''aac_stereo'', ar_Codec = ''aac'', ar_Bitrate = 128000, ar_Channels = 2,
        ar_Method = Transcode\<rparr>]
     @ (if as_Channels audio \<ge> 6
        then [\<lparr>ar_Name = ''aac_surround'', ar_Codec = ''aac'', ar_Bitrate = 384000,
                 ar_Channels = 6, ar_Method = Transcode\<rparr>]
        else [])
     @ (if passthroughCodecs (as_Codec audio)
        then [\<lparr>ar_Name = as_Codec audio @ ''_passthrough'', ar_Codec = as_Codec audio,
                 ar_Bitrate = as_Bitrate audio, ar_Channels = as_Channels audio,
                 ar_Method = DirectStream\<rparr>]
        else [])"

section \<open>Notifying store facade (internal/segment/notifying_storage.go)\<close>

datatype StreamType = StreamVideo | StreamAudio | StreamSubtitle

record SegmentData =
  sd_SourceURL :: string
  sd_Index :: int
  sd_StartPTS :: nat
  sd_EndPTS :: nat
  sd_Duration :: f64
  sd_Rendition :: string
  sd_IsVideo :: bool

datatype SegmentState = SegmentStateReady | SegmentStateError

record SegmentStatus =
  st_State :: SegmentState
  st_Error :: string

text \<open>
  \<open>Storage\<close> and \<open>Coordinator\<close> are interfaces. A call on one of them is an event of
  the trace, and what the call returns is given by the collaborator, as a function of the
  trace so far and of the arguments: \<open>None\<close> for a nil error, \<open>Some\<close> of the error's
  text otherwise. A byte string is a \<open>string\<close>.
\<close>

datatype event =
    StorageWriteSegment SegmentData string
  | NotifySegment SegmentData SegmentStatus
  | Ack string
  | RemoveFile string
  | RemoveAll string
  | StartWorker string bool

record collaborators =
  storage_WriteSegment :: "event list \<Rightarrow> SegmentData \<Rightarrow> string \<Rightarrow> string option"
  coordinator_NotifySegment :: "event list \<Rightarrow> SegmentData \<Rightarrow> SegmentStatus \<Rightarrow> string option"

text \<open>
  \<open>NotifyingStorage.WriteSegment\<close>: the returned error and the trace after the call.
  \<open>fmt.Errorf("storage write: %w", err)\<close> has the text of \<open>err\<close> after the prefix.
\<close>

definition NotifyingStorage_WriteSegment ::
  "collaborators \<Rightarrow> event list \<Rightarrow> SegmentData \<Rightarrow> string \<Rightarrow> string option \<times> event list" where
  "NotifyingStorage_WriteSegment c trace info data =
     (let written = trace @ [StorageWriteSegment info data] in
      case storage_WriteSegment c trace info data of
        Some err \<Rightarrow>
          (let status = \<lparr>st_State = SegmentStateError, st_Error = err\<rparr>
           in (Some (''storage write: '' @ err), written @ [NotifySegment info status]))
      | None \<Rightarrow>
          (let status = \<lparr>st_State = SegmentStateReady, st_Error = []\<rparr>
           in case coordinator_NotifySegment c written info status of
                Some err \<Rightarrow>
                  (Some (''notify segment: '' @ err), written @ [NotifySegment info status])
              | None \<Rightarrow> (None, written @ [NotifySegment info status])))"

section \<open>Worker (internal/transcode/worker.go)\<close>

text \<open>
  The functions of Go's \<open>strings\<close> and \<open>strconv\<close> that the worker calls, on byte
  strings. \<open>TrimSpace\<close> strips, at both ends, the white space of \<open>unicode.IsSpace\<close>:
  the six ASCII bytes and the runes U+0085, U+00A0, U+1680, U+2000 to U+200A, U+2028,
  U+2029, U+202F, U+205F and U+3000 in their UTF-8 encodings. A leading or trailing rune
  decodes to one of them exactly when the string begins or ends with its encoding (any
  other bytes decode to another rune or to the error rune, which is not white space), so
  trimming is the repeated removal of such an encoding, first at the front and then at
  the back. \<open>Split\<close> is taken at the one-byte separator the worker passes. \<open>Atoi\<close> reads
  an optional sign and decimal digits and fails on anything else and on a value outside
  64 bits.
\<close>

definition spaceRunes :: "string list" where
  \<comment> \<open>the UTF-8 encodings of the runes for which \<open>unicode.IsSpace\<close> holds\<close>
  "spaceRunes =
     [[CHR 0x09], [CHR 0x0A], [CHR 0x0B], [CHR 0x0C], [CHR 0x0D], [CHR 0x20],
      [CHR 0xC2, CHR 0x85], [CHR 0xC2, CHR 0xA0],
      [CHR 0xE1, CHR 0x9A, CHR 0x80],
      [CHR 0xE2, CHR 0x80, CHR 0x80], [CHR 0xE2, CHR 0x80, CHR 0x81],
      [CHR 0xE2, CHR 0x80, CHR 0x82], [CHR 0xE2, CHR 0x80, CHR 0x83],
      [CHR 0xE2, CHR 0x80, CHR 0x84], [CHR 0xE2, CHR 0x80, CHR 0x85],
      [CHR 0xE2, CHR 0x80, CHR 0x86], [CHR 0xE2, CHR 0x80, CHR 0x87],
      [CHR 0xE2, CHR 0x80, CHR 0x88], [CHR 0xE2, CHR 0x80, CHR 0x89],
      [CHR 0xE2, CHR 0x80, CHR 0x8A],
      [CHR 0xE2, CHR 0x80, CHR 0xA8], [CHR 0xE2, CHR 0x80, CHR 0xA9],
      [CHR 0xE2, CHR 0x80, CHR 0xAF],
      [CHR 0xE2, CHR 0x81, CHR 0x9F],
      [CHR 0xE3, CHR 0x80, CHR 0x80]]"

lemma spaceRunes_find:
  "find P spaceRunes = Some p \<Longrightarrow> P p \<and> p \<noteq> []"
proof -
  assume "find P spaceRunes = Some p"
  then have "P p" and "p \<in> set spaceRunes"
    by (auto simp: find_Some_iff)
  moreover have "[] \<notin> set spaceRunes"
    by (simp add: spaceRunes_def)
  ultimately show ?thesis
    by auto
qed

function TrimLeftSpace :: "string \<Rightarrow> string" where
  "TrimLeftSpace s =
     (case find (\<lambda>p. prefix p s) spaceRunes of
        None \<Rightarrow> s
      | Some p \<Rightarrow> TrimLeftSpace (drop (length p) s))"
  by pat_completeness auto

termination
proof (relation "measure length", goal_cases)
  case 1
  show ?case by simp
next
  case (2 s p)
  from spaceRunes_find [OF 2] have "prefix p s" and "p \<noteq> []"
    by auto
  then have "s \<noteq> []"
    by auto
  with \<open>p \<noteq> []\<close> show ?case
    by simp
qed

declare TrimLeftSpace.simps [simp del]

function TrimRightSpace :: "string \<Rightarrow> string" where
  "TrimRightSpace s =
     (case find (\<lambda>p. suffix p s) spaceRunes of
        None \<Rightarrow> s
      | Some p \<Rightarrow> TrimRightSpace (take (length s - length p) s))"
  by pat_completeness auto

termination
proof (relation "measure length", goal_cases)
  case 1
  show ?case by simp
next
  case (2 s p)
  from spaceRunes_find [OF 2] have "suffix p s" and "p \<noteq> []"
    by auto
  then have "s \<noteq> []"
    by auto
  with \<open>p \<noteq> []\<close> show ?case
    by simp
qed

declare TrimRightSpace.simps [simp del]

definition TrimSpace :: "string \<Rightarrow> string" where
  "TrimSpace s = TrimRightSpace (TrimLeftSpace s)"

definition TrimSuffix :: "string \<Rightarrow> string \<Rightarrow> string" where
  "TrimSuffix s suf =
     (if suf = drop (length s - length suf) s \<and> length suf \<le> length s
      then take (length s - length suf) s else s)"

fun Split :: "string \<Rightarrow> char \<Rightarrow> string list" where
  "Split [] sep = [[]]"
| "Split (x # xs) sep =
     (if x = sep then [] # Split xs sep
      else (case Split xs sep of p # ps \<Rightarrow> (x # p) # ps | [] \<Rightarrow> [[x]]))"

definition digit_value :: "char \<Rightarrow> int" where
  "digit_value c = int (length (takeWhile (\<lambda>d. d \<noteq> c) ''0123456789''))"

definition Atoi :: "string \<Rightarrow> int option" where
  "Atoi s =
     (let neg = (s \<noteq> [] \<and> hd s = CHR ''-'');
          digits = (if s \<noteq> [] \<and> (hd s = CHR ''-'' \<or> hd s = CHR ''+'') then tl s else s);
          v = foldl (\<lambda>acc c. acc * 10 + digit_value c) 0 digits;
          n = (if neg then - v else v)
      in if digits = [] \<or> \<not> list_all (\<lambda>c. c \<in> set ''0123456789'') digits then None
         else if n < - (2 ^ 63) \<or> n \<ge> 2 ^ 63 then None
         else Some n)"

definition parseSegmentIndex :: "string \<Rightarrow> int option" where
  "parseSegmentIndex filename =
     (let name = TrimSuffix filename ''.ts'';
          parts = Split name (CHR ''-'')
      in if length parts < 2 then None else Atoi (last parts))"

datatype WorkerState = WorkerStateIdle | WorkerStateRunning | WorkerStateDone | WorkerStateError

record Worker =
  w_sourceURL :: string
  w_rendition :: string
  w_isVideo :: bool
  w_tmpDir :: string
  w_skipFirst :: bool

text \<open>
  What the operating system and the context give the worker: the result of
  \<open>os.ReadFile\<close> (an error text or the bytes), whether the context is done when the
  \<open>n\<close>-th line has been scanned, and the error of \<open>cmd.Wait\<close>.
\<close>

record os_env =
  os_ReadFile :: "event list \<Rightarrow> string \<Rightarrow> string + string"
  ctx_Done :: "nat \<Rightarrow> bool"
  cmd_Wait :: "event list \<Rightarrow> string option"

text \<open>
  \<open>filepath.Join\<close> on a system whose separator is the slash: the elements from the
  first non-empty one on are joined with slashes and the result is cleaned. \<open>Clean\<close>
  reads the path element by element: an empty element and \<open>.\<close> are dropped, \<open>..\<close>
  takes away the element written before it, is dropped at the root, and is kept where a
  relative path has nothing left to take away; an empty result is \<open>.\<close>.
\<close>

fun JoinSep :: "string list \<Rightarrow> string \<Rightarrow> string" where
  \<comment> \<open>\<open>strings.Join\<close>\<close>
  "JoinSep [] sep = []"
| "JoinSep [x] sep = x"
| "JoinSep (x # y # ys) sep = x @ sep @ JoinSep (y # ys) sep"

definition Clean_step :: "bool \<Rightarrow> string list \<Rightarrow> string \<Rightarrow> string list" where
  "Clean_step rooted out e =
     (if e = [] \<or> e = ''.'' then out
      else if e = ''..''
      then (if out \<noteq> [] \<and> last out \<noteq> ''..'' then butlast out
            else if rooted then out
            else out @ [''..''])
      else out @ [e])"

definition Clean :: "string \<Rightarrow> string" where
  "Clean path =
     (if path = [] then ''.''
      else
        (let rooted = (hd path = CHR ''/'');
             out = foldl (Clean_step rooted) [] (Split path (CHR ''/''))
         in if rooted then CHR ''/'' # JoinSep out ''/''
            else if out = [] then ''.''
            else JoinSep out ''/''))"

definition Join :: "string \<Rightarrow> string \<Rightarrow> string" where
  "Join dir name =
     (if dir \<noteq> [] then Clean (JoinSep [dir, name] ''/'')
      else if name \<noteq> [] then Clean name
      else [])"

definition uploadSegment ::
  "collaborators \<Rightarrow> os_env \<Rightarrow> Worker \<Rightarrow> event list \<Rightarrow> string \<Rightarrow> string option \<times> event list" where
  "uploadSegment c os w trace filename =
     (case parseSegmentIndex filename of
        None \<Rightarrow> (None, trace)
      | Some idx \<Rightarrow>
          (let filePath = Join (w_tmpDir w) filename in
           case os_ReadFile os trace filePath of
             Inl err \<Rightarrow> (Some (''read segment file '' @ filename @ '': '' @ err), trace)
           | Inr data \<Rightarrow>
               (let info = \<lparr>sd_SourceURL = w_sourceURL w, sd_Index = idx, sd_StartPTS = 0,
                             sd_EndPTS = 0, sd_Duration = Finite 0,
                             sd_Rendition = w_rendition w, sd_IsVideo = w_isVideo w\<rparr>
                in case storage_WriteSegment c trace info data of
                     Some err \<Rightarrow>
                       (Some (''write segment '' @ itoa idx @ '': '' @ err),
                        trace @ [StorageWriteSegment info data])
                   | None \<Rightarrow>
                       (None, trace @ [StorageWriteSegment info data, RemoveFile filePath]))))"

text \<open>
  The scanner loop of \<open>run\<close> over the lines the encoder prints; \<open>n\<close> counts the lines
  scanned. It ends early, with the worker's state and error, when the context is done (the
  state is left as it is, running) or an upload fails; otherwise it falls through to
  \<open>cmd.Wait\<close>.
\<close>

fun run_loop ::
  "collaborators \<Rightarrow> os_env \<Rightarrow> Worker \<Rightarrow> bool \<Rightarrow> nat \<Rightarrow> string list \<Rightarrow> event list
   \<Rightarrow> (WorkerState \<times> string option) option \<times> event list" where
  "run_loop c os w skipFirst n [] trace = (None, trace)"
| "run_loop c os w skipFirst n (line # rest) trace =
     (if ctx_Done os n then (Some (WorkerStateRunning, None), trace)
      else
        (let filename = TrimSpace line in
         if filename = [] then run_loop c os w skipFirst (n + 1) rest trace
         else if skipFirst
         then run_loop c os w False (n + 1) rest
                (trace @ [RemoveFile (Join (w_tmpDir w) filename)])
         else
           (case uploadSegment c os w trace filename of
              (Some err, trace') \<Rightarrow> (Some (WorkerStateError, Some err), trace')
            | (None, trace') \<Rightarrow> run_loop c os w skipFirst (n + 1) rest trace')))"

definition run ::
  "collaborators \<Rightarrow> os_env \<Rightarrow> Worker \<Rightarrow> string list \<Rightarrow> event list
   \<Rightarrow> (WorkerState \<times> string option) \<times> event list" where
  "run c os w lines trace =
     (case run_loop c os w (w_skipFirst w) 0 lines trace of
        (Some stopped, trace') \<Rightarrow> (stopped, trace')
      | (None, trace') \<Rightarrow>
          (case cmd_Wait os trace' of
             Some cmdErr \<Rightarrow>
               if \<not> ctx_Done os (length lines) then ((WorkerStateError, Some cmdErr), trace')
               else ((WorkerStateDone, None), trace')
           | None \<Rightarrow> ((WorkerStateDone, None), trace')))"

fun writes :: "event list \<Rightarrow> SegmentData list" where
  "writes [] = []"
| "writes (StorageWriteSegment info data # es) = info # writes es"
| "writes (e # es) = writes es"

section \<open>Properties of the worker\<close>

definition spec_trailing_index :: "string \<Rightarrow> int option" where
  \<comment> \<open>the claim's words: the trailing token of the name without \<open>.ts\<close>, read as an integer\<close>
  "spec_trailing_index f = Atoi (last (Split (TrimSuffix f ''.ts'') (CHR ''-'')))"

definition names :: "string list \<Rightarrow> string list" where
  \<comment> \<open>the non-empty file names among the lines, trimmed\<close>
  "names lines = filter (\<lambda>f. f \<noteq> []) (map TrimSpace lines)"

definition info_of :: "Worker \<Rightarrow> int \<Rightarrow> SegmentData" where
  "info_of w idx =
     \<lparr>sd_SourceURL = w_sourceURL w, sd_Index = idx, sd_StartPTS = 0, sd_EndPTS = 0,
       sd_Duration = Finite 0, sd_Rendition = w_rendition w, sd_IsVideo = w_isVideo w\<rparr>"

lemma TrimSpace_unchanged:
  assumes "find (\<lambda>p. prefix p s) spaceRunes = None"
    and "find (\<lambda>p. suffix p s) spaceRunes = None"
  shows "TrimSpace s = s"
proof -
  have "TrimLeftSpace s = s"
    by (subst TrimLeftSpace.simps) (simp add: assms)
  moreover have "TrimRightSpace s = s"
    by (subst TrimRightSpace.simps) (simp add: assms)
  ultimately show ?thesis
    by (simp add: TrimSpace_def)
qed

lemma TrimSpace_segment_names:
  "TrimSpace ''segment-00001.ts'' = ''segment-00001.ts''"
  "TrimSpace ''segment-00002.ts'' = ''segment-00002.ts''"
  "TrimSpace ''7.ts'' = ''7.ts''"
  by (rule TrimSpace_unchanged; simp add: spaceRunes_def suffix_to_prefix)+

lemma TrimSpace_no_break_space:
  "TrimSpace (''segment-00005.ts'' @ [CHR 0xC2, CHR 0xA0]) = ''segment-00005.ts''"
  "TrimSpace [CHR 0xC2, CHR 0xA0] = []"
proof -
  have left: "TrimLeftSpace (''segment-00005.ts'' @ [CHR 0xC2, CHR 0xA0])
      = ''segment-00005.ts'' @ [CHR 0xC2, CHR 0xA0]"
    by (subst TrimLeftSpace.simps) (simp add: spaceRunes_def)
  have right: "TrimRightSpace (''segment-00005.ts'' @ [CHR 0xC2, CHR 0xA0])
      = TrimRightSpace ''segment-00005.ts''"
    by (subst TrimRightSpace.simps) (simp add: spaceRunes_def suffix_to_prefix)
  have rest: "TrimRightSpace ''segment-00005.ts'' = ''segment-00005.ts''"
    by (subst TrimRightSpace.simps) (simp add: spaceRunes_def suffix_to_prefix)
  show "TrimSpace (''segment-00005.ts'' @ [CHR 0xC2, CHR 0xA0]) = ''segment-00005.ts''"
    by (simp only: TrimSpace_def left right rest)
  have empty_left: "TrimLeftSpace [] = []"
    by (subst TrimLeftSpace.simps) (simp add: spaceRunes_def)
  have empty_right: "TrimRightSpace [] = []"
    by (subst TrimRightSpace.simps) (simp add: spaceRunes_def)
  have "TrimLeftSpace [CHR 0xC2, CHR 0xA0] = TrimLeftSpace []"
    by (subst TrimLeftSpace.simps) (simp add: spaceRunes_def)
  then show "TrimSpace [CHR 0xC2, CHR 0xA0] = []"
    by (simp add: TrimSpace_def empty_left empty_right)
qed

lemma writes_append: "writes (xs @ ys) = writes xs @ writes ys"
  by (induction xs rule: writes.induct) simp_all

lemma uploadSegment_ok:
  assumes "\<And>tr p. \<exists>d. os_ReadFile os tr p = Inr d"
    and "\<And>tr i d. storage_WriteSegment c tr i d = None"
  shows "fst (uploadSegment c os w trace f) = None
    \<and> writes (snd (uploadSegment c os w trace f))
        = writes trace @ map (info_of w) (List.map_filter parseSegmentIndex [f])"
proof (cases "parseSegmentIndex f")
  case None
  then show ?thesis by (simp add: uploadSegment_def List.map_filter_def)
next
  case (Some idx)
  from assms(1) obtain d where "os_ReadFile os trace (Join (w_tmpDir w) f) = Inr d"
    by blast
  with Some assms(2) show ?thesis
    by (simp add: uploadSegment_def Let_def List.map_filter_def writes_append info_of_def)
qed

lemma run_loop_ok:
  assumes "\<And>n. \<not> ctx_Done os n"
    and "\<And>tr p. \<exists>d. os_ReadFile os tr p = Inr d"
    and "\<And>tr i d. storage_WriteSegment c tr i d = None"
  shows "fst (run_loop c os w skipFirst n lines trace) = None
    \<and> writes (snd (run_loop c os w skipFirst n lines trace))
        = writes trace
          @ map (info_of w)
              (List.map_filter parseSegmentIndex
                 (if skipFirst then tl (names lines) else names lines))"
proof (induction lines arbitrary: skipFirst n trace)
  case Nil
  show ?case by (simp add: names_def List.map_filter_def)
next
  case (Cons line rest)
  show ?case
  proof (cases "TrimSpace line = []")
    case True
    with Cons [of skipFirst "n + 1" trace] assms(1) show ?thesis
      by (simp add: names_def)
  next
    case nonempty: False
    show ?thesis
    proof (cases skipFirst)
      case True
      with Cons [of False "n + 1" "trace @ [RemoveFile (Join (w_tmpDir w) (TrimSpace line))]"]
        nonempty assms(1)
      show ?thesis by (simp add: names_def writes_append)
    next
      case False
      obtain tr' where up: "uploadSegment c os w trace (TrimSpace line) = (None, tr')"
        using uploadSegment_ok [OF assms(2,3), of w trace "TrimSpace line"]
        by (cases "uploadSegment c os w trace (TrimSpace line)") auto
      with uploadSegment_ok [OF assms(2,3), of w trace "TrimSpace line"]
      have w': "writes tr'
          = writes trace @ map (info_of w) (List.map_filter parseSegmentIndex [TrimSpace line])"
        by simp
      from Cons [of False "n + 1" tr'] False nonempty assms(1) up w'
      show ?thesis
        by (simp add: names_def List.map_filter_def)
    qed
  qed
qed

lemma run_loop_first_removed:
  "\<not> ctx_Done os n \<Longrightarrow> TrimSpace line \<noteq> [] \<Longrightarrow>
   run_loop c os w True n (line # rest) trace
     = run_loop c os w False (n + 1) rest
         (trace @ [RemoveFile (Join (w_tmpDir w) (TrimSpace line))])"
  by simp

lemma parseSegmentIndex_dash:
  "parseSegmentIndex f = Some idx
   \<longleftrightarrow> CHR ''-'' \<in> set (TrimSuffix f ''.ts'')
       \<and> Atoi (last (Split (TrimSuffix f ''.ts'') (CHR ''-''))) = Some idx"
proof -
  have len: "length (Split s sep) = Suc (length (filter (\<lambda>x. x = sep) s))" for s sep
    by (induction s) (auto split: list.splits)
  have "length (Split s sep) < 2 \<longleftrightarrow> sep \<notin> set s" for s and sep :: char
    unfolding len by (induction s) auto
  then show ?thesis
    by (auto simp: parseSegmentIndex_def Let_def)
qed

lemma uploadSegment_extends: "\<exists>ext. snd (uploadSegment c os w trace f) = trace @ ext"
  by (auto simp: uploadSegment_def Let_def split: option.splits sum.splits)

lemma run_loop_extends: "\<exists>ext. snd (run_loop c os w skipFirst n lines trace) = trace @ ext"
proof (induction lines arbitrary: skipFirst n trace)
  case Nil
  show ?case by simp
next
  case (Cons line rest)
  show ?case
  proof (cases "ctx_Done os n \<or> TrimSpace line = [] \<or> skipFirst")
    case True
    with Cons [of skipFirst "n + 1" trace]
      Cons [of False "n + 1" "trace @ [RemoveFile (Join (w_tmpDir w) (TrimSpace line))]"]
    show ?thesis by (auto simp: Let_def)
  next
    case False
    obtain r tr' where up: "uploadSegment c os w trace (TrimSpace line) = (r, tr')"
      by (cases "uploadSegment c os w trace (TrimSpace line)") auto
    with uploadSegment_extends [of c os w trace "TrimSpace line"]
    obtain e1 where e1: "tr' = trace @ e1" by auto
    from Cons [of False "n + 1" tr'] obtain e2
      where "snd (run_loop c os w False (n + 1) rest tr') = tr' @ e2" by auto
    with False up e1 show ?thesis by (cases r) (auto simp: Let_def)
  qed
qed

lemma run_loop_skips_first:
  assumes "\<And>n. \<not> ctx_Done os n" and "names lines \<noteq> []"
  shows "\<exists>rest. snd (run_loop c os w True n lines trace)
     = trace @ RemoveFile (Join (w_tmpDir w) (hd (names lines))) # rest"
  using assms(2)
proof (induction lines arbitrary: n)
  case Nil
  then show ?case by (simp add: names_def)
next
  case (Cons line rest)
  show ?case
  proof (cases "TrimSpace line = []")
    case True
    with Cons assms(1) show ?thesis by (simp add: names_def)
  next
    case False
    from run_loop_extends
      [of c os w False "n + 1" rest "trace @ [RemoveFile (Join (w_tmpDir w) (TrimSpace line))]"]
    obtain ext where "snd (run_loop c os w False (n + 1) rest
        (trace @ [RemoveFile (Join (w_tmpDir w) (TrimSpace line))]))
      = (trace @ [RemoveFile (Join (w_tmpDir w) (TrimSpace line))]) @ ext" by blast
    with False assms(1) show ?thesis by (simp add: names_def)
  qed
qed

section \<open>Pool: processing a job (internal/transcode/pool.go)\<close>

record Job =
  job_ID :: string
  job_SourceURL :: string
  job_Rendition :: string
  job_StreamType :: StreamType
  job_StartIndex :: int
  job_EndIndex :: int

record Metadata =
  md_Duration :: f64
  md_Keyframes :: "f64 list"
  md_Video :: VideoStream
  md_Audios :: "AudioStream list"

text \<open>
  What the pool's surroundings return to \<open>processJob\<close>: the metadata of a source (the
  error of \<open>GetMetadata\<close> or of the JSON decoding, or the decoded value), the temporary
  directory or the error of \<open>os.MkdirTemp\<close>, and the error of the worker's \<open>Start\<close>.
  The results of \<open>NotifySegment\<close> and \<open>Ack\<close> are not read by the pool. The trace
  holds the calls on the coordinator, the start of the worker (\<open>StartWorker\<close> with the
  directory and the \<open>skipFirst\<close> flag; the encoder's argument vector is not part of it)
  and the deferred \<open>os.RemoveAll\<close>; what the running worker does in between is its own
  trace.
\<close>

record pool_env =
  pool_getMetadata :: "string \<Rightarrow> string + Metadata"
  os_MkdirTemp :: "string + string"
  worker_Start :: "string option"

definition publishError :: "StreamType \<Rightarrow> Job \<Rightarrow> string \<Rightarrow> event list" where
  "publishError streamType job err =
     map (\<lambda>i. NotifySegment
                 \<lparr>sd_SourceURL = job_SourceURL job, sd_Index = i, sd_StartPTS = 0,
                   sd_EndPTS = 0, sd_Duration = Finite 0, sd_Rendition = job_Rendition job,
                   sd_IsVideo = (streamType = StreamVideo)\<rparr>
                 \<lparr>st_State = SegmentStateError, st_Error = err\<rparr>)
         [job_StartIndex job .. job_EndIndex job]"

definition findVideoRendition :: "Metadata \<Rightarrow> string \<Rightarrow> VideoRendition option" where
  "findVideoRendition meta name =
     find (\<lambda>r. vr_Name r = name) (GenerateVideo (md_Video meta))"

definition findAudioRendition :: "Metadata \<Rightarrow> string \<Rightarrow> AudioRendition option" where
  "findAudioRendition meta name =
     (if md_Audios meta = [] then None
      else find (\<lambda>r. ar_Name r = name) (GenerateAudio (hd (md_Audios meta))))"

definition startWorker :: "StreamType \<Rightarrow> pool_env \<Rightarrow> Job \<Rightarrow> string \<Rightarrow> bool \<Rightarrow> event list" where
  \<comment> \<open>the end of \<open>processJob\<close>: \<open>w.Start\<close>, the wait for the worker, the acknowledgement\<close>
  "startWorker streamType env job tmpDir skipFirst =
     (case worker_Start env of
        Some err \<Rightarrow> publishError streamType job err
      | None \<Rightarrow> [StartWorker tmpDir skipFirst, Ack (job_ID job)])"

definition processJob :: "StreamType \<Rightarrow> pool_env \<Rightarrow> Job \<Rightarrow> event list" where
  "processJob streamType env job =
     (case pool_getMetadata env (job_SourceURL job) of
        Inl err \<Rightarrow> publishError streamType job err
      | Inr meta \<Rightarrow>
          (let segments = extractSegments (md_Keyframes meta) (md_Duration meta)
                            (job_StartIndex job) (job_EndIndex job)
           in if segments = []
              then publishError streamType job
                     (''no segments for range '' @ itoa (job_StartIndex job) @ ''-''
                      @ itoa (job_EndIndex job))
              else
                (case os_MkdirTemp env of
                   Inl err \<Rightarrow> publishError streamType job (''create temp dir: '' @ err)
                 | Inr tmpDir \<Rightarrow>
                     (if streamType = StreamVideo
                      then
                        (case findVideoRendition meta (job_Rendition job) of
                           None \<Rightarrow>
                             publishError streamType job
                               (''video rendition '' @ job_Rendition job @ '' not found'')
                         | Some videoRendition \<Rightarrow>
                             (let overlapSegments =
                                    extractSegments (md_Keyframes meta) (md_Duration meta)
                                      (job_StartIndex job - 1) (job_EndIndex job);
                                  skipFirst = (job_StartIndex job > 0
                                    \<and> length overlapSegments > length segments)
                              in startWorker streamType env job tmpDir skipFirst))
                      else
                        (case findAudioRendition meta (job_Rendition job) of
                           None \<Rightarrow>
                             publishError streamType job
                               (''audio rendition '' @ job_Rendition job @ '' not found'')
                         | Some audioRendition \<Rightarrow>
                             startWorker streamType env job tmpDir False))
                     @ [RemoveAll tmpDir])))"

section \<open>Playlist generator (internal/playlist/generator.go)\<close>

text \<open>
  The path generator is an interface of the caller; of its methods the master playlist
  calls \<open>VariantPlaylist\<close>, taken here as a function of its arguments. The line feed and
  the double quote of the format strings are written by their codes. The builder of the
  source is the string accumulated so far.
\<close>

record PathGenerator =
  pg_VariantPlaylist :: "string \<Rightarrow> string \<Rightarrow> StreamType \<Rightarrow> string"

definition LF :: char where
  "LF = CHR 0x0A"

definition DQ :: char where
  "DQ = CHR 0x22"

definition defaultFlag :: "bool \<Rightarrow> string" where
  "defaultFlag isDefault = (if isDefault then ''YES'' else ''NO'')"

definition videoCodecString :: "VideoRendition \<Rightarrow> string" where
  "videoCodecString video =
     (if vr_Height video = 2160 then ''avc1.640033''
      else if vr_Height video = 1080 then ''avc1.640028''
      else if vr_Height video = 720 then ''avc1.64001f''
      else if vr_Height video = 480 then ''avc1.64001e''
      else ''avc1.640015'')"

definition audioCodecString :: string where
  "audioCodecString = ''mp4a.40.2''"

definition audioGroupID :: string where
  "audioGroupID = ''audio''"

definition Master_media :: "PathGenerator \<Rightarrow> string \<Rightarrow> AudioRendition \<Rightarrow> string" where
  \<comment> \<open>the \<open>Sprintf\<close> of the first loop, with the line feed of its format\<close>
  "Master_media pathGen sourceURL audio =
     ''#EXT-X-MEDIA:TYPE=AUDIO,GROUP-ID='' @ [DQ] @ audioGroupID @ [DQ]
     @ '',NAME='' @ [DQ] @ ar_Name audio @ [DQ]
     @ '',DEFAULT='' @ defaultFlag (ar_Name audio = ''aac_stereo'')
     @ '',AUTOSELECT=YES,URI='' @ [DQ]
     @ pg_VariantPlaylist pathGen sourceURL (ar_Name audio) StreamAudio @ [DQ] @ [LF]"

definition Master_streamInf :: "VideoRendition \<Rightarrow> string" where
  \<comment> \<open>the \<open>streamInf\<close> of the second loop\<close>
  "Master_streamInf video =
     (let codecs = videoCodecString video @ '','' @ audioCodecString
      in ''#EXT-X-STREAM-INF:BANDWIDTH='' @ itoa (vr_Bitrate video)
         @ '',RESOLUTION='' @ itoa (vr_Width video) @ ''x'' @ itoa (vr_Height video)
         @ '',CODECS='' @ [DQ] @ codecs @ [DQ]
         @ '',AUDIO='' @ [DQ] @ audioGroupID @ [DQ])"

definition Master ::
  "PathGenerator \<Rightarrow> string \<Rightarrow> VideoRendition list \<Rightarrow> AudioRendition list \<Rightarrow> string" where
  "Master pathGen sourceURL videos audios =
     (let b = ''#EXTM3U'' @ [LF];
          b = b @ ''#EXT-X-VERSION:4'' @ [LF];
          b = b @ [LF];
          b = foldl (\<lambda>b audio. b @ Master_media pathGen sourceURL audio) b audios;
          b = (if length audios > 0 then b @ [LF] else b);
          b = foldl (\<lambda>b video.
                 (b @ Master_streamInf video @ [LF])
                 @ pg_VariantPlaylist pathGen sourceURL (vr_Name video) StreamVideo @ [LF])
                b videos
      in b)"


section \<open>Properties of the playlist generator\<close>

definition Master_lines ::
  "PathGenerator \<Rightarrow> string \<Rightarrow> VideoRendition list \<Rightarrow> AudioRendition list \<Rightarrow> string list" where
  \<comment> \<open>the lines that \<open>Master\<close> writes, each without its line feed\<close>
  "Master_lines pathGen sourceURL videos audios =
     [''#EXTM3U'', ''#EXT-X-VERSION:4'', []]
     @ map (\<lambda>audio. butlast (Master_media pathGen sourceURL audio)) audios
     @ (if audios = [] then [] else [[]])
     @ concat (map (\<lambda>video. [Master_streamInf video,
                               pg_VariantPlaylist pathGen sourceURL (vr_Name video) StreamVideo])
                   videos)"

lemma foldl_append_concat:
  "foldl (\<lambda>b x. b @ f x) b xs = b @ concat (map f xs)"
  by (induction xs arbitrary: b) simp_all

lemma Split_line:
  "sep \<notin> set l \<Longrightarrow> Split (l @ sep # rest) sep = l # Split rest sep"
  by (induction l) auto

lemma Split_unlines:
  "(\<And>l. l \<in> set ls \<Longrightarrow> sep \<notin> set l)
   \<Longrightarrow> Split (concat (map (\<lambda>l. l @ [sep]) ls)) sep = ls @ [[]]"
  by (induction ls) (simp_all add: Split_line)

lemma Master_media_snoc:
  "butlast (Master_media pathGen sourceURL audio) @ [LF] = Master_media pathGen sourceURL audio"
proof -
  obtain x where "Master_media pathGen sourceURL audio = x @ [LF]"
    unfolding Master_media_def by (metis append.assoc)
  then show ?thesis
    by simp
qed

lemma Master_unlines:
  "Master pathGen sourceURL videos audios
   = concat (map (\<lambda>l. l @ [LF]) (Master_lines pathGen sourceURL videos audios))"
proof -
  have media: "map ((\<lambda>l. l @ [LF]) \<circ> (\<lambda>audio. butlast (Master_media pathGen sourceURL audio)))
                  audios
      = map (Master_media pathGen sourceURL) audios"
    by (simp add: Master_media_snoc)
  have video: "concat (map (\<lambda>l. l @ [LF])
                  (concat (map (\<lambda>video. [Master_streamInf video,
                       pg_VariantPlaylist pathGen sourceURL (vr_Name video) StreamVideo]) videos)))
      = concat (map (\<lambda>video. Master_streamInf video @ [LF]
                       @ pg_VariantPlaylist pathGen sourceURL (vr_Name video) StreamVideo @ [LF])
                    videos)"
    by (induction videos) simp_all
  have loop: "foldl (\<lambda>b video.
                 (b @ Master_streamInf video @ [LF])
                 @ pg_VariantPlaylist pathGen sourceURL (vr_Name video) StreamVideo @ [LF])
                b videos
      = b @ concat (map (\<lambda>video. Master_streamInf video @ [LF]
                       @ pg_VariantPlaylist pathGen sourceURL (vr_Name video) StreamVideo @ [LF])
                    videos)" for b
    using foldl_append_concat [of "\<lambda>video. Master_streamInf video @ [LF]
             @ pg_VariantPlaylist pathGen sourceURL (vr_Name video) StreamVideo @ [LF]" b videos]
    by simp
  show ?thesis
    unfolding Master_def Master_lines_def Let_def loop foldl_append_concat
    by (simp add: media video del: concat_map_singleton)
qed

lemma decimal_digits:
  "c \<in> set (decimal n) \<Longrightarrow> c \<in> set ''0123456789''"
proof (induction n rule: decimal.induct)
  case (1 n)
  have digit: "''0123456789'' ! k \<in> set ''0123456789''" if "k < 10" for k
    using that by (intro nth_mem) simp
  show ?case
  proof (cases "n < 10")
    case True
    with 1 digit [of n] show ?thesis
      by (subst (asm) decimal.simps) simp
  next
    case False
    with 1 digit [of "n mod 10"] show ?thesis
      by (subst (asm) (2) decimal.simps) auto
  qed
qed

lemma itoa_LF:
  "LF \<notin> set (itoa i)"
  using decimal_digits [of LF]
  by (auto simp: itoa_def LF_def)

lemma Master_streamInf_LF:
  "LF \<notin> set (Master_streamInf video)"
  using itoa_LF
  by (simp add: Master_streamInf_def videoCodecString_def audioCodecString_def
      audioGroupID_def Let_def)
    (simp add: LF_def DQ_def)

lemma Master_media_LF:
  assumes "LF \<notin> set (ar_Name audio)"
    and "LF \<notin> set (pg_VariantPlaylist pathGen sourceURL (ar_Name audio) StreamAudio)"
  shows "LF \<notin> set (butlast (Master_media pathGen sourceURL audio))"
proof -
  have "Master_media pathGen sourceURL audio
      = (''#EXT-X-MEDIA:TYPE=AUDIO,GROUP-ID='' @ [DQ] @ audioGroupID @ [DQ]
         @ '',NAME='' @ [DQ] @ ar_Name audio @ [DQ]
         @ '',DEFAULT='' @ defaultFlag (ar_Name audio = ''aac_stereo'')
         @ '',AUTOSELECT=YES,URI='' @ [DQ]
         @ pg_VariantPlaylist pathGen sourceURL (ar_Name audio) StreamAudio @ [DQ]) @ [LF]"
    by (simp add: Master_media_def)
  then have "butlast (Master_media pathGen sourceURL audio)
      = ''#EXT-X-MEDIA:TYPE=AUDIO,GROUP-ID='' @ [DQ] @ audioGroupID @ [DQ]
         @ '',NAME='' @ [DQ] @ ar_Name audio @ [DQ]
         @ '',DEFAULT='' @ defaultFlag (ar_Name audio = ''aac_stereo'')
         @ '',AUTOSELECT=YES,URI='' @ [DQ]
         @ pg_VariantPlaylist pathGen sourceURL (ar_Name audio) StreamAudio @ [DQ]"
    by (simp only: butlast_snoc)
  with assms show ?thesis
    by (simp add: audioGroupID_def defaultFlag_def) (simp add: LF_def DQ_def)
qed

lemma Master_media_prefix:
  "prefix ''#EXT-X-MEDIA'' (butlast (Master_media pathGen sourceURL audio))"
  by (simp add: Master_media_def butlast_append)

lemma Master_streamInf_prefix:
  "prefix ''#EXT-X-STREAM-INF'' (Master_streamInf video)"
  by (simp add: Master_streamInf_def Let_def)

lemma Master_streamInf_suffix:
  "suffix ('',AUDIO='' @ [DQ] @ ''audio'' @ [DQ]) (Master_streamInf video)"
  unfolding Master_streamInf_def Let_def audioGroupID_def suffix_def
  by (metis append.assoc)

lemma Master_Split:
  assumes "\<And>a. a \<in> set audios \<Longrightarrow> LF \<notin> set (ar_Name a)
             \<and> LF \<notin> set (pg_VariantPlaylist pathGen sourceURL (ar_Name a) StreamAudio)"
    and "\<And>v. v \<in> set videos
             \<Longrightarrow> LF \<notin> set (pg_VariantPlaylist pathGen sourceURL (vr_Name v) StreamVideo)"
  shows "Split (Master pathGen sourceURL videos audios) LF
         = Master_lines pathGen sourceURL videos audios @ [[]]"
proof -
  have "LF \<notin> set l" if "l \<in> set (Master_lines pathGen sourceURL videos audios)" for l
    using that assms Master_streamInf_LF Master_media_LF
    by (auto simp: Master_lines_def LF_def split: if_splits)
  then show ?thesis
    unfolding Master_unlines by (rule Split_unlines)
qed

section \<open>Properties of the segmenter\<close>

lemma f64_le_not_lt_eq: "f64_le a b \<Longrightarrow> \<not> f64_lt a b \<Longrightarrow> a = b"
  by (cases a; cases b) auto

lemma CalculateSegments_eq_walk:
  "CalculateSegments (k0 # ks) d td = spec_walk td d k0 0 ks"
  using CalculateSegments_loop_walk [where td = td and ks = ks and segs = "[]" and s = k0 and i = 0 and d = d]
  by (simp add: CalculateSegments_def)

lemma spec_walk_nonempty: "f64_lt s d \<Longrightarrow> spec_walk td d s i ks \<noteq> []"
  by (induction ks arbitrary: s i) (simp_all add: spec_walk_Nil spec_walk_Cons)

lemma spec_walk_empty: "spec_walk td d s i ks = [] \<Longrightarrow> \<not> f64_lt s d"
  using spec_walk_nonempty by blast

lemma spec_walk_hd: "spec_walk td d s i ks \<noteq> [] \<Longrightarrow> Start (hd (spec_walk td d s i ks)) = s"
  by (induction ks arbitrary: i) (simp_all add: spec_walk_Nil spec_walk_Cons split: if_splits)

lemma spec_walk_last:
  "\<forall>k \<in> set ks. f64_le k d \<Longrightarrow> spec_walk td d s i ks \<noteq> [] \<Longrightarrow>
   End (last (spec_walk td d s i ks)) = d"
proof (induction ks arbitrary: s i)
  case Nil
  then show ?case by (simp add: spec_walk_Nil split: if_splits)
next
  case (Cons k ks)
  show ?case
  proof (cases "f64_ge (f64_sub k s) td")
    case closes: True
    show ?thesis
    proof (cases "spec_walk td d k (i + 1) ks = []")
      case True
      then have "\<not> f64_lt k d" by (rule spec_walk_empty)
      moreover from Cons.prems have "f64_le k d" by simp
      ultimately have "k = d" by (simp add: f64_le_not_lt_eq)
      with closes True show ?thesis by (simp add: spec_walk_Cons)
    next
      case False
      with Cons.IH [of k "i + 1"] Cons.prems closes show ?thesis
        by (simp add: spec_walk_Cons)
    qed
  next
    case False
    with Cons.IH [of s i] Cons.prems show ?thesis by (simp add: spec_walk_Cons)
  qed
qed

lemma spec_walk_contiguous:
  "Suc n < length (spec_walk td d s i ks) \<Longrightarrow>
   End (spec_walk td d s i ks ! n) = Start (spec_walk td d s i ks ! Suc n)"
proof (induction ks arbitrary: s i n)
  case Nil
  then show ?case by (simp add: spec_walk_Nil split: if_splits)
next
  case (Cons k ks)
  show ?case
  proof (cases "f64_ge (f64_sub k s) td")
    case closes: True
    let ?rest = "spec_walk td d k (i + 1) ks"
    from Cons.prems closes have len: "n < length ?rest" by (simp add: spec_walk_Cons)
    then have ne: "?rest \<noteq> []" by auto
    show ?thesis
    proof (cases n)
      case 0
      with closes ne spec_walk_hd [OF ne] show ?thesis
        by (simp add: spec_walk_Cons hd_conv_nth)
    next
      case (Suc m)
      with Cons.prems closes have "Suc m < length ?rest" by (simp add: spec_walk_Cons)
      from Cons.IH [OF this] Suc closes show ?thesis by (simp add: spec_walk_Cons)
    qed
  next
    case False
    with Cons.IH [of n s i] Cons.prems show ?thesis by (simp add: spec_walk_Cons)
  qed
qed

lemma spec_walk_index:
  "n < length (spec_walk td d s i ks) \<Longrightarrow> Index (spec_walk td d s i ks ! n) = i + int n"
proof (induction ks arbitrary: s i n)
  case Nil
  then show ?case by (simp add: spec_walk_Nil split: if_splits)
next
  case (Cons k ks)
  show ?case
  proof (cases "f64_ge (f64_sub k s) td")
    case closes: True
    show ?thesis
    proof (cases n)
      case 0
      with closes show ?thesis by (simp add: spec_walk_Cons)
    next
      case (Suc m)
      with Cons.prems closes have "m < length (spec_walk td d k (i + 1) ks)"
        by (simp add: spec_walk_Cons)
      from Cons.IH [OF this] Suc closes show ?thesis by (simp add: spec_walk_Cons)
    qed
  next
    case False
    with Cons.IH [of n s i] Cons.prems show ?thesis by (simp add: spec_walk_Cons)
  qed
qed

section \<open>Properties of the rendition planner\<close>

lemma go_rem_2_odd: "go_rem w 2 \<noteq> 0 \<longleftrightarrow> odd w"
proof -
  have a: "\<bar>w\<bar> mod 2 = (if odd w then 1 else 0)" by presburger
  have b: "odd w \<Longrightarrow> sgn w \<noteq> 0" by (auto simp: sgn_if)
  show ?thesis unfolding go_rem_def using a b by auto
qed

lemma calculateWidth_least_even:
  "even (calculateWidth w H h)
   \<and> f64_to_int (f64_mul (f64_of_int h) (f64_div (f64_of_int w) (f64_of_int H)))
       \<le> calculateWidth w H h
   \<and> calculateWidth w H h
       \<le> f64_to_int (f64_mul (f64_of_int h) (f64_div (f64_of_int w) (f64_of_int H))) + 1"
  by (simp add: calculateWidth_def Let_def go_rem_2_odd)

lemma clampBitrate_targetHeights:
  "h \<in> set targetHeights \<Longrightarrow>
   \<exists>bmin bmax. bitrateBounds h = Some (bmin, bmax)
      \<and> bmin \<le> clampBitrate h b \<and> clampBitrate h b \<le> bmax"
  by (auto simp: targetHeights_def bitrateBounds_def clampBitrate_def)

definition rendition_ok :: "VideoStream \<Rightarrow> VideoRendition \<Rightarrow> bool" where
  "rendition_ok video r =
     ((\<exists>bmin bmax. bitrateBounds (vr_Height r) = Some (bmin, bmax)
          \<and> bmin \<le> vr_Bitrate r \<and> vr_Bitrate r \<le> bmax)
      \<and> vr_Width r = calculateWidth (vs_Width video) (vs_Height video) (vr_Height r)
      \<and> vr_Height r \<le> vs_Height video
      \<and> vr_Method r =
          (if directStreamCodecs (vs_Codec video) \<and> vr_Height r = vs_Height video
           then DirectStream else Transcode))"

lemma GenerateVideo_step_ok:
  assumes "list_all (rendition_ok video) acc" and "h \<in> set targetHeights"
  shows "list_all (rendition_ok video) (GenerateVideo_step video acc h)"
  using assms clampBitrate_targetHeights [OF assms(2)]
  by (simp add: GenerateVideo_step_def Let_def rendition_ok_def)

lemma GenerateVideo_foldl_ok:
  "list_all (rendition_ok video) acc \<Longrightarrow> set hs \<subseteq> set targetHeights \<Longrightarrow>
   list_all (rendition_ok video) (foldl (GenerateVideo_step video) acc hs)"
  by (induction hs arbitrary: acc) (simp_all add: GenerateVideo_step_ok)

lemma GenerateVideo_ok: "r \<in> set (GenerateVideo video) \<Longrightarrow> rendition_ok video r"
  using GenerateVideo_foldl_ok [of video "[]" targetHeights]
  by (simp add: GenerateVideo_def list_all_iff)

section \<open>The claims\<close>

text \<open>
  C1. The batch a worker extracts for a job range is the segmenter's list filtered to that
  range. The pool's \<open>extractSegments\<close> does not compute that list: with keyframes
  \<open>[0, 2, 4]\<close>, duration 16 and the range \<open>[0, 0]\<close> no keyframe is 6 seconds after
  the first, and the pool ends the segment at the last keyframe, \<open>[0, 4)\<close>, where the
  segmenter (target duration 6) emits the tail \<open>[0, 16)\<close>.
\<close>

theorem C1_extractSegments_not_CalculateSegments:
  "extractSegments [Finite 0, Finite 2, Finite 4] (Finite 16) 0 0
     = [\<lparr>Index = 0, Start = Finite 0, End = Finite 4, Duration = Finite 4\<rparr>]
   \<and> filter (\<lambda>s. 0 \<le> Index s \<and> Index s \<le> 0)
        (CalculateSegments [Finite 0, Finite 2, Finite 4] (Finite 16) (f64_lit 6))
     = [\<lparr>Index = 0, Start = Finite 0, End = Finite 16, Duration = Finite 16\<rparr>]"
  by (simp add: f64_eval extractSegments_def extractSegments_loop.simps
      extractSegments_end_def extractSegments_scan.simps CalculateSegments_def)

text \<open>
  C2. \<open>CalculateSegments\<close> on a non-empty keyframe list is the walk of the
  specification from the cursor \<open>keyframes[0]\<close> and index 0 (for every list, the
  non-decreasing ones among them); and on keyframes \<open>[0, 1, 2.5, 4.9, 7.1]\<close>, duration 8
  and target duration 2 it gives the four segments \<open>[0, 2.5)\<close>, \<open>[2.5, 4.9)\<close>,
  \<open>[4.9, 7.1)\<close>, \<open>[7.1, 8)\<close> with indices 0 to 3.
\<close>

theorem C2_CalculateSegments_walk:
  "CalculateSegments (k0 # ks) duration target_duration
     = spec_walk target_duration duration k0 0 ks
   \<and> map (\<lambda>s. (Index s, Start s, End s))
        (CalculateSegments
           [f64_lit 0, f64_lit 1, f64_lit (5 / 2), f64_lit (49 / 10), f64_lit (71 / 10)]
           (f64_lit 8) (f64_lit 2))
     = [(0, f64_lit 0, f64_lit (5 / 2)), (1, f64_lit (5 / 2), f64_lit (49 / 10)),
        (2, f64_lit (49 / 10), f64_lit (71 / 10)), (3, f64_lit (71 / 10), f64_lit 8)]"
proof
  show "CalculateSegments (k0 # ks) duration target_duration
     = spec_walk target_duration duration k0 0 ks"
    by (rule CalculateSegments_eq_walk)
  show "map (\<lambda>s. (Index s, Start s, End s))
        (CalculateSegments
           [f64_lit 0, f64_lit 1, f64_lit (5 / 2), f64_lit (49 / 10), f64_lit (71 / 10)]
           (f64_lit 8) (f64_lit 2))
     = [(0, f64_lit 0, f64_lit (5 / 2)), (1, f64_lit (5 / 2), f64_lit (49 / 10)),
        (2, f64_lit (49 / 10), f64_lit (71 / 10)), (3, f64_lit (71 / 10), f64_lit 8)]"
    by (simp add: f64_eval CalculateSegments_def)
qed

theorem C2_CalculateSegments_walk_witness:
  "CalculateSegments [Finite 1] (Finite 4) (f64_lit 6)
     = [\<lparr>Index = 0, Start = Finite 1, End = Finite 4, Duration = Finite 3\<rparr>]"
proof -
  have "spec_walk (f64_lit 6) (Finite 4) (Finite 1) 0 []
     = [\<lparr>Index = 0, Start = Finite 1, End = Finite 4, Duration = Finite 3\<rparr>]"
    by (simp add: f64_eval spec_walk_Nil)
  with C2_CalculateSegments_walk [of "Finite 1" "[]" "Finite 4" "f64_lit 6"]
  show ?thesis by simp
qed

text \<open>
  C3. For a non-empty keyframe list the segment list is non-empty, starts at
  \<open>keyframes[0]\<close>, ends at \<open>duration\<close>, is contiguous and numbered from 0. As stated,
  for every duration, this fails: keyframes \<open>[10]\<close> with duration 5 give no segment at
  all, since the tail is emitted only when the cursor is below the duration. It holds
  when \<open>keyframes[0] < duration\<close> and no keyframe is above the duration.
\<close>

theorem C3_CalculateSegments_invariants:
  assumes "keyframes \<noteq> []"
    and "f64_lt (hd keyframes) duration"
    and "\<forall>k \<in> set keyframes. f64_le k duration"
  shows "CalculateSegments keyframes duration td \<noteq> []
    \<and> Start (hd (CalculateSegments keyframes duration td)) = hd keyframes
    \<and> End (last (CalculateSegments keyframes duration td)) = duration
    \<and> (\<forall>n. Suc n < length (CalculateSegments keyframes duration td) \<longrightarrow>
          End (CalculateSegments keyframes duration td ! n)
            = Start (CalculateSegments keyframes duration td ! Suc n))
    \<and> (\<forall>n < length (CalculateSegments keyframes duration td).
          Index (CalculateSegments keyframes duration td ! n) = int n)"
proof -
  from assms(1) obtain k0 ks where kf: "keyframes = k0 # ks" by (cases keyframes) auto
  have eq: "CalculateSegments keyframes duration td = spec_walk td duration k0 0 ks"
    unfolding kf by (rule CalculateSegments_eq_walk)
  from assms(2) kf have lt: "f64_lt k0 duration" by simp
  from assms(3) kf have le: "\<forall>k \<in> set ks. f64_le k duration" by simp
  have ne: "spec_walk td duration k0 0 ks \<noteq> []" using lt by (rule spec_walk_nonempty)
  show ?thesis
    unfolding eq
    using ne spec_walk_hd [OF ne] spec_walk_last [OF le ne] kf
    by (auto simp: spec_walk_contiguous spec_walk_index)
qed

theorem C3_CalculateSegments_invariants_witness:
  "[Finite 0, Finite 7] \<noteq> []
   \<and> f64_lt (hd [Finite 0, Finite 7]) (Finite 10)
   \<and> f64_le (Finite 0) (Finite 10) \<and> f64_le (Finite 7) (Finite 10)
   \<and> length (CalculateSegments [Finite 0, Finite 7] (Finite 10) (f64_lit 6)) = 2
   \<and> Start (hd (CalculateSegments [Finite 0, Finite 7] (Finite 10) (f64_lit 6))) = Finite 0
   \<and> End (last (CalculateSegments [Finite 0, Finite 7] (Finite 10) (f64_lit 6))) = Finite 10
   \<and> End (CalculateSegments [Finite 0, Finite 7] (Finite 10) (f64_lit 6) ! 0)
       = Start (CalculateSegments [Finite 0, Finite 7] (Finite 10) (f64_lit 6) ! 1)
   \<and> Index (CalculateSegments [Finite 0, Finite 7] (Finite 10) (f64_lit 6) ! 1) = 1"
proof -
  have h1: "[Finite 0, Finite 7] \<noteq> []" by simp
  have h2: "f64_lt (hd [Finite 0, Finite 7]) (Finite 10)" by simp
  have h3: "\<forall>k \<in> set [Finite 0, Finite 7]. f64_le k (Finite 10)" by simp
  have len: "length (CalculateSegments [Finite 0, Finite 7] (Finite 10) (f64_lit 6)) = 2"
    by (simp add: f64_eval CalculateSegments_def)
  from C3_CalculateSegments_invariants [OF h1 h2 h3, of "f64_lit 6"] len
  show ?thesis by simp
qed

theorem C3_counterexample:
  "CalculateSegments [Finite 10] (Finite 5) (f64_lit 6) = []"
  by (simp add: CalculateSegments_def)

text \<open>
  C8. \<open>findNearestKeyframe\<close> returns the keyframe before the nearest one when the
  nearest is within 0.01 of the target and an earlier keyframe exists. The code takes
  \<open>prevKeyframe > 0\<close> for "an earlier keyframe exists", so an earlier keyframe at time 0
  is not preferred: for \<open>[0, 10, 15]\<close> and target 10 it returns 10, where for
  \<open>[5, 10, 15]\<close> it returns 5.
\<close>

theorem C8_findNearestKeyframe_zero_predecessor:
  "findNearestKeyframe [Finite 0, Finite 10, Finite 15] (Finite 10) = Finite 10
   \<and> findNearestKeyframe [Finite 5, Finite 10, Finite 15] (Finite 10) = Finite 5"
  by (simp add: f64_eval findNearestKeyframe_def)


text \<open>
  C6. Every rendition that \<open>GenerateVideo\<close> produces has a bitrate within the bounds
  of its height, an even width and a height that is at most the source's; its method is
  \<open>direct_stream\<close> exactly when the source codec is in the allow-list and the height
  is the source's, and \<open>transcode\<close> otherwise. (Proved for every source stream, the
  ones of positive width, height and pixel count among them.)
\<close>

theorem C6_GenerateVideo_renditions:
  "\<forall>r \<in> set (GenerateVideo video).
     (\<exists>bmin bmax. bitrateBounds (vr_Height r) = Some (bmin, bmax)
        \<and> bmin \<le> vr_Bitrate r \<and> vr_Bitrate r \<le> bmax)
     \<and> even (vr_Width r)
     \<and> vr_Height r \<le> vs_Height video
     \<and> ((vr_Method r = DirectStream)
          = (directStreamCodecs (vs_Codec video) \<and> vr_Height r = vs_Height video))
     \<and> ((vr_Method r \<noteq> DirectStream) = (vr_Method r = Transcode))"
proof
  fix r
  assume "r \<in> set (GenerateVideo video)"
  then have ok: "rendition_ok video r" by (rule GenerateVideo_ok)
  then have "even (vr_Width r)"
    by (simp add: rendition_ok_def calculateWidth_least_even)
  with ok show "(\<exists>bmin bmax. bitrateBounds (vr_Height r) = Some (bmin, bmax)
        \<and> bmin \<le> vr_Bitrate r \<and> vr_Bitrate r \<le> bmax)
     \<and> even (vr_Width r)
     \<and> vr_Height r \<le> vs_Height video
     \<and> ((vr_Method r = DirectStream)
          = (directStreamCodecs (vs_Codec video) \<and> vr_Height r = vs_Height video))
     \<and> ((vr_Method r \<noteq> DirectStream) = (vr_Method r = Transcode))"
    by (simp add: rendition_ok_def)
qed

theorem C6_GenerateVideo_renditions_witness:
  "\<lparr>vr_Name = ''360p'', vr_Width = 640, vr_Height = 360, vr_Bitrate = 800000,
     vr_Method = DirectStream\<rparr>
     \<in> set (GenerateVideo \<lparr>vs_Index = 0, vs_Codec = ''h264'', vs_Width = 640,
                vs_Height = 360, vs_Bitrate = 800000, vs_FrameRate = Finite 24\<rparr>)
   \<and> bitrateBounds 360 = Some (300000, 1000000)
   \<and> (300000::int) \<le> 800000 \<and> (800000::int) \<le> 1000000 \<and> even (640::int)
   \<and> directStreamCodecs ''h264''"
proof -
  have name: "itoa 360 = ''360''"
    by (simp add: itoa_def decimal.simps)
  have width: "calculateWidth 640 360 360 = 640"
    by (simp add: f64_eval calculateWidth_def go_rem_def)
  have bitrate: "clampBitrate 360 (f64_to_int (f64_mul (f64_of_int 800000)
      (f64_div (f64_of_int 230400) (f64_of_int 230400)))) = 800000"
    by (simp add: f64_eval clampBitrate_def bitrateBounds_def)
  have mem: "\<lparr>vr_Name = ''360p'', vr_Width = 640, vr_Height = 360, vr_Bitrate = 800000,
     vr_Method = DirectStream\<rparr>
     \<in> set (GenerateVideo \<lparr>vs_Index = 0, vs_Codec = ''h264'', vs_Width = 640,
                vs_Height = 360, vs_Bitrate = 800000, vs_FrameRate = Finite 24\<rparr>)"
    by (simp add: GenerateVideo_def GenerateVideo_step_def int64_def targetHeights_def Let_def
        directStreamCodecs_def name width bitrate)
  from C6_GenerateVideo_renditions [rule_format, OF mem] mem
  show ?thesis by (auto simp: bitrateBounds_def directStreamCodecs_def)
qed

text \<open>
  C7. The width of a rendition is the smallest even integer that is at least the exact
  scaled width \<open>source.width * h / source.height\<close>. It is not: the code truncates the
  scaled width (computed in float64 as \<open>h * (width / height)\<close>) to an integer first and
  adds one only if that integer is odd. A source of 854 by 480 gets the 360p width 640,
  below the exact 640.5. What holds: the width is the smallest even integer that is at
  least the truncated float64 value.
\<close>

theorem C7_width_least_even_above_truncation:
  assumes "r \<in> set (GenerateVideo video)"
  shows "even (vr_Width r)
    \<and> f64_to_int (f64_mul (f64_of_int (vr_Height r))
         (f64_div (f64_of_int (vs_Width video)) (f64_of_int (vs_Height video))))
        \<le> vr_Width r
    \<and> (\<forall>m. even m
          \<and> f64_to_int (f64_mul (f64_of_int (vr_Height r))
               (f64_div (f64_of_int (vs_Width video)) (f64_of_int (vs_Height video))))
              \<le> m
          \<longrightarrow> vr_Width r \<le> m)"
proof -
  let ?t = "f64_to_int (f64_mul (f64_of_int (vr_Height r))
         (f64_div (f64_of_int (vs_Width video)) (f64_of_int (vs_Height video))))"
  from assms have "rendition_ok video r" by (rule GenerateVideo_ok)
  then have w: "vr_Width r = calculateWidth (vs_Width video) (vs_Height video) (vr_Height r)"
    by (simp add: rendition_ok_def)
  from calculateWidth_least_even [of "vs_Width video" "vs_Height video" "vr_Height r"]
  have e: "even (vr_Width r)" and lo: "?t \<le> vr_Width r" and hi: "vr_Width r \<le> ?t + 1"
    unfolding w by simp_all
  have "vr_Width r \<le> m" if "even m" and "?t \<le> m" for m
    using that e lo hi by presburger
  with e lo show ?thesis by blast
qed

theorem C7_width_least_even_above_truncation_witness:
  "GenerateVideo \<lparr>vs_Index = 0, vs_Codec = ''h264'', vs_Width = 854, vs_Height = 480,
        vs_Bitrate = 1500000, vs_FrameRate = Finite 24\<rparr> ! 1
     \<in> set (GenerateVideo \<lparr>vs_Index = 0, vs_Codec = ''h264'', vs_Width = 854,
                vs_Height = 480, vs_Bitrate = 1500000, vs_FrameRate = Finite 24\<rparr>)
   \<and> vr_Height (GenerateVideo \<lparr>vs_Index = 0, vs_Codec = ''h264'', vs_Width = 854,
        vs_Height = 480, vs_Bitrate = 1500000, vs_FrameRate = Finite 24\<rparr> ! 1) = 360
   \<and> vr_Width (GenerateVideo \<lparr>vs_Index = 0, vs_Codec = ''h264'', vs_Width = 854,
        vs_Height = 480, vs_Bitrate = 1500000, vs_FrameRate = Finite 24\<rparr> ! 1) = 640
   \<and> f64_to_int (f64_mul (f64_of_int 360) (f64_div (f64_of_int 854) (f64_of_int 480))) = 640
   \<and> even (640 :: int)"
proof -
  let ?video = "\<lparr>vs_Index = 0, vs_Codec = ''h264'', vs_Width = 854, vs_Height = 480,
        vs_Bitrate = 1500000, vs_FrameRate = Finite 24\<rparr>"
  have w480: "calculateWidth 854 480 480 = 854"
    by (simp add: f64_eval calculateWidth_def go_rem_def)
  have w360: "calculateWidth 854 480 360 = 640"
    by (simp add: f64_eval calculateWidth_def go_rem_def)
  have len: "length (GenerateVideo ?video) = 2"
    by (simp add: GenerateVideo_def GenerateVideo_step_def int64_def targetHeights_def Let_def)
  have h: "vr_Height (GenerateVideo ?video ! 1) = 360"
    by (simp add: GenerateVideo_def GenerateVideo_step_def int64_def targetHeights_def Let_def)
  have w: "vr_Width (GenerateVideo ?video ! 1) = 640"
    by (simp add: GenerateVideo_def GenerateVideo_step_def int64_def targetHeights_def Let_def
        w480 w360)
  have mem: "GenerateVideo ?video ! 1 \<in> set (GenerateVideo ?video)"
    using len by (simp only: nth_mem one_less_numeral_iff semiring_norm)
  have t: "f64_to_int (f64_mul (f64_of_int 360) (f64_div (f64_of_int 854) (f64_of_int 480)))
      = 640"
    by (simp add: f64_eval)
  from C7_width_least_even_above_truncation [OF mem] mem h w t
  show ?thesis by simp
qed


theorem C7_counterexample:
  "map (\<lambda>r. (vr_Height r, vr_Width r))
     (GenerateVideo \<lparr>vs_Index = 0, vs_Codec = ''h264'', vs_Width = 854, vs_Height = 480,
        vs_Bitrate = 1500000, vs_FrameRate = Finite 24\<rparr>)
     = [(480, 854), (360, 640)]
   \<and> (640 :: rat) < 854 * 360 / 480"
proof -
  have w480: "calculateWidth 854 480 480 = 854"
    by (simp add: f64_eval calculateWidth_def go_rem_def)
  have w360: "calculateWidth 854 480 360 = 640"
    by (simp add: f64_eval calculateWidth_def go_rem_def)
  show ?thesis
    by (simp add: GenerateVideo_def GenerateVideo_step_def int64_def targetHeights_def Let_def
        w480 w360)
qed

text \<open>
  C5. \<open>NotifyingStorage.WriteSegment\<close> first calls the underlying \<open>WriteSegment\<close>.
  If that fails with \<open>err\<close>, it publishes the error status carrying \<open>err\<close> for the key
  and returns the wrapped error. If it succeeds, it publishes the ready status for the key
  after the write, and returns an error exactly when that publish fails.
\<close>

theorem C5_NotifyingStorage_WriteSegment:
  "(storage_WriteSegment c trace info data = Some err \<longrightarrow>
      NotifyingStorage_WriteSegment c trace info data
        = (Some (''storage write: '' @ err),
           trace @ [StorageWriteSegment info data,
                    NotifySegment info \<lparr>st_State = SegmentStateError, st_Error = err\<rparr>]))
   \<and> (storage_WriteSegment c trace info data = None \<longrightarrow>
        snd (NotifyingStorage_WriteSegment c trace info data)
          = trace @ [StorageWriteSegment info data,
                     NotifySegment info \<lparr>st_State = SegmentStateReady, st_Error = []\<rparr>]
        \<and> (fst (NotifyingStorage_WriteSegment c trace info data) \<noteq> None)
            = (coordinator_NotifySegment c (trace @ [StorageWriteSegment info data]) info
                 \<lparr>st_State = SegmentStateReady, st_Error = []\<rparr> \<noteq> None))"
  by (auto simp: NotifyingStorage_WriteSegment_def Let_def split: option.splits)

theorem C5_NotifyingStorage_WriteSegment_witness:
  "storage_WriteSegment
     \<lparr>storage_WriteSegment = (\<lambda>t i d. Some ''disk full''),
      coordinator_NotifySegment = (\<lambda>t i s. None)\<rparr>
     [] \<lparr>sd_SourceURL = ''src'', sd_Index = 2, sd_StartPTS = 0, sd_EndPTS = 0,
         sd_Duration = Finite 0, sd_Rendition = ''720p'', sd_IsVideo = True\<rparr> ''bytes''
     = Some ''disk full''
   \<and> NotifyingStorage_WriteSegment
       \<lparr>storage_WriteSegment = (\<lambda>t i d. Some ''disk full''),
        coordinator_NotifySegment = (\<lambda>t i s. None)\<rparr>
       [] \<lparr>sd_SourceURL = ''src'', sd_Index = 2, sd_StartPTS = 0, sd_EndPTS = 0,
           sd_Duration = Finite 0, sd_Rendition = ''720p'', sd_IsVideo = True\<rparr> ''bytes''
     = (Some ''storage write: disk full'',
        [StorageWriteSegment
           \<lparr>sd_SourceURL = ''src'', sd_Index = 2, sd_StartPTS = 0, sd_EndPTS = 0,
             sd_Duration = Finite 0, sd_Rendition = ''720p'', sd_IsVideo = True\<rparr> ''bytes'',
         NotifySegment
           \<lparr>sd_SourceURL = ''src'', sd_Index = 2, sd_StartPTS = 0, sd_EndPTS = 0,
             sd_Duration = Finite 0, sd_Rendition = ''720p'', sd_IsVideo = True\<rparr>
           \<lparr>st_State = SegmentStateError, st_Error = ''disk full''\<rparr>])"
  using C5_NotifyingStorage_WriteSegment
    [of "\<lparr>storage_WriteSegment = (\<lambda>t i d. Some ''disk full''),
          coordinator_NotifySegment = (\<lambda>t i s. None)\<rparr>"
        "[]" "\<lparr>sd_SourceURL = ''src'', sd_Index = 2, sd_StartPTS = 0, sd_EndPTS = 0,
           sd_Duration = Finite 0, sd_Rendition = ''720p'', sd_IsVideo = True\<rparr>"
        "''bytes''" "''disk full''"]
  by simp



text \<open>
  C9. With \<open>skip_first\<close> set, the first non-empty line's file is deleted without being
  uploaded; each later non-empty line whose trailing \<open>-\<close>-separated token (after
  stripping \<open>.ts\<close>) parses as an integer is uploaded under that integer, and the other
  lines are skipped without error. As stated this fails for a name without any \<open>-\<close>:
  \<open>parseSegmentIndex\<close> refuses a name with fewer than two parts, so \<open>7.ts\<close> is skipped
  although its only token reads as 7. What holds, as long as the context is not cancelled
  and every read and write succeeds: the writes are, in order, those of the names that
  contain a \<open>-\<close> and whose last token is an integer (the first non-empty name left out
  and removed when \<open>skip_first\<close> is set), and the loop itself ends without an error.
  A line is read as its name: the line without the white space, ASCII or other Unicode,
  that \<open>strings.TrimSpace\<close> strips at its two ends; a line with nothing else is passed
  over.
\<close>

theorem C9_run_uploads:
  assumes "\<And>n. \<not> ctx_Done os n"
    and "\<And>tr p. \<exists>d. os_ReadFile os tr p = Inr d"
    and "\<And>tr i d. storage_WriteSegment c tr i d = None"
  shows "writes (snd (run c os w lines trace))
      = writes trace
        @ map (info_of w)
            (List.map_filter parseSegmentIndex
               (if w_skipFirst w then tl (names lines) else names lines))
    \<and> (w_skipFirst w \<and> names lines \<noteq> [] \<longrightarrow>
         (\<exists>rest. snd (run c os w lines trace)
            = trace @ RemoveFile (Join (w_tmpDir w) (hd (names lines))) # rest))
    \<and> (\<forall>f idx. parseSegmentIndex f = Some idx
          \<longleftrightarrow> CHR ''-'' \<in> set (TrimSuffix f ''.ts'') \<and> spec_trailing_index f = Some idx)
    \<and> fst (run c os w lines trace)
        = (case cmd_Wait os (snd (run c os w lines trace)) of
             Some cmdErr \<Rightarrow> (WorkerStateError, Some cmdErr)
           | None \<Rightarrow> (WorkerStateDone, None))"
proof -
  obtain tr' where loop: "run_loop c os w (w_skipFirst w) 0 lines trace = (None, tr')"
    using run_loop_ok [OF assms, of w "w_skipFirst w" 0 lines trace]
    by (cases "run_loop c os w (w_skipFirst w) 0 lines trace") auto
  then have tr: "snd (run c os w lines trace) = tr'"
    by (simp add: run_def split: option.splits)
  have st: "fst (run c os w lines trace)
      = (case cmd_Wait os tr' of
           Some cmdErr \<Rightarrow> (WorkerStateError, Some cmdErr)
         | None \<Rightarrow> (WorkerStateDone, None))"
    using loop assms(1) by (simp add: run_def split: option.splits)
  have wr: "writes tr' = writes trace
        @ map (info_of w)
            (List.map_filter parseSegmentIndex
               (if w_skipFirst w then tl (names lines) else names lines))"
    using run_loop_ok [OF assms, of w "w_skipFirst w" 0 lines trace] loop by simp
  have rm: "\<exists>rest. tr' = trace @ RemoveFile (Join (w_tmpDir w) (hd (names lines))) # rest"
    if "w_skipFirst w" and "names lines \<noteq> []"
    using run_loop_skips_first [OF assms(1) that(2), of c w 0 trace] that(1) loop by simp
  show ?thesis
    unfolding tr using st wr rm
    by (simp add: parseSegmentIndex_dash spec_trailing_index_def)
qed

theorem C9_run_uploads_witness:
  "writes (snd (run
     \<lparr>storage_WriteSegment = (\<lambda>t i d. None), coordinator_NotifySegment = (\<lambda>t i s. None)\<rparr>
     \<lparr>os_ReadFile = (\<lambda>t p. Inr ''data''), ctx_Done = (\<lambda>n. False), cmd_Wait = (\<lambda>t. None)\<rparr>
     \<lparr>w_sourceURL = ''file:///source'', w_rendition = ''1080p'', w_isVideo = True,
       w_tmpDir = ''/tmp/w'', w_skipFirst = True\<rparr>
     [''segment-00001.ts'', ''segment-00002.ts''] []))
   = [\<lparr>sd_SourceURL = ''file:///source'', sd_Index = 2, sd_StartPTS = 0, sd_EndPTS = 0,
        sd_Duration = Finite 0, sd_Rendition = ''1080p'', sd_IsVideo = True\<rparr>]"
proof -
  let ?c = "\<lparr>storage_WriteSegment = (\<lambda>t i d. None),
             coordinator_NotifySegment = (\<lambda>t i s. None)\<rparr>"
  let ?os = "\<lparr>os_ReadFile = (\<lambda>t p. Inr ''data''), ctx_Done = (\<lambda>n. False),
              cmd_Wait = (\<lambda>t. None)\<rparr>"
  have h1: "\<And>n. \<not> ctx_Done ?os n" by simp
  have h2: "\<And>tr p. \<exists>d. os_ReadFile ?os tr p = Inr d" by simp
  have h3: "\<And>tr i d. storage_WriteSegment ?c tr i d = None" by simp
  have p1: "parseSegmentIndex ''segment-00002.ts'' = Some 2"
    by (simp add: parseSegmentIndex_def TrimSuffix_def Atoi_def digit_value_def Let_def)
  have n: "names [''segment-00001.ts'', ''segment-00002.ts'']
      = [''segment-00001.ts'', ''segment-00002.ts'']"
    by (simp add: names_def TrimSpace_segment_names)
  from C9_run_uploads [OF h1 h2 h3, of
      "\<lparr>w_sourceURL = ''file:///source'', w_rendition = ''1080p'', w_isVideo = True,
         w_tmpDir = ''/tmp/w'', w_skipFirst = True\<rparr>"
      "[''segment-00001.ts'', ''segment-00002.ts'']" "[]"]
  show ?thesis
    by (simp add: n p1 List.map_filter_def info_of_def)
qed

theorem C9_counterexample:
  "spec_trailing_index ''7.ts'' = Some 7
   \<and> run \<lparr>storage_WriteSegment = (\<lambda>t i d. None), coordinator_NotifySegment = (\<lambda>t i s. None)\<rparr>
         \<lparr>os_ReadFile = (\<lambda>t p. Inr ''data''), ctx_Done = (\<lambda>n. False), cmd_Wait = (\<lambda>t. None)\<rparr>
         \<lparr>w_sourceURL = ''file:///source'', w_rendition = ''1080p'', w_isVideo = True,
           w_tmpDir = ''/tmp/w'', w_skipFirst = True\<rparr>
         [''segment-00001.ts'', ''7.ts''] []
     = ((WorkerStateDone, None), [RemoveFile ''/tmp/w/segment-00001.ts''])"
proof -
  have path: "Join ''/tmp/w'' ''segment-00001.ts'' = ''/tmp/w/segment-00001.ts''"
    by (simp add: Join_def Clean_def Clean_step_def Let_def)
  show ?thesis
    by (simp add: spec_trailing_index_def run_def uploadSegment_def parseSegmentIndex_def
        TrimSpace_segment_names TrimSuffix_def Atoi_def digit_value_def path Let_def)
qed


text \<open>
  C4. On a failure before the worker runs, an error status is published for every index
  of the job's range, and in every case the job is acknowledged to the coordinator.
  \<open>processJob\<close> publishes the errors and returns: \<open>Ack\<close> is called on the one path
  that reaches the end of the function. For a video job with the range \<open>[2, 4]\<close> whose
  metadata is missing, the trace is the three error notifications and nothing else.
\<close>

theorem C4_processJob_no_Ack_on_failure:
  "processJob StreamVideo
     \<lparr>pool_getMetadata = (\<lambda>url. Inl ''metadata not found''),
       os_MkdirTemp = Inr ''/tmp/transcode-1'', worker_Start = None\<rparr>
     \<lparr>job_ID = ''job-1'', job_SourceURL = ''file:///source'', job_Rendition = ''1080p'',
       job_StreamType = StreamVideo, job_StartIndex = 2, job_EndIndex = 4\<rparr>
   = map (\<lambda>i. NotifySegment
                \<lparr>sd_SourceURL = ''file:///source'', sd_Index = i, sd_StartPTS = 0,
                  sd_EndPTS = 0, sd_Duration = Finite 0, sd_Rendition = ''1080p'',
                  sd_IsVideo = True\<rparr>
                \<lparr>st_State = SegmentStateError, st_Error = ''metadata not found''\<rparr>)
         [2, 3, 4]
   \<and> Ack ''job-1''
       \<notin> set (processJob StreamVideo
                \<lparr>pool_getMetadata = (\<lambda>url. Inl ''metadata not found''),
                  os_MkdirTemp = Inr ''/tmp/transcode-1'', worker_Start = None\<rparr>
                \<lparr>job_ID = ''job-1'', job_SourceURL = ''file:///source'',
                  job_Rendition = ''1080p'', job_StreamType = StreamVideo,
                  job_StartIndex = 2, job_EndIndex = 4\<rparr>)"
proof -
  have range: "[2 .. 4 :: int] = [2, 3, 4]"
    by (simp add: upto.simps)
  show ?thesis
    by (simp add: processJob_def publishError_def range)
qed


text \<open>
  C10. The master playlist of \<open>Generator.Master\<close> has the attribute \<open>AUDIO="audio"\<close> in
  every \<open>#EXT-X-STREAM-INF\<close> line, also when the list of audio renditions is empty, and
  then it has no \<open>#EXT-X-MEDIA\<close> line. The names of the audio renditions and the paths
  of the path generator are copied into the playlist as they are, so the statement about
  the lines of the playlist needs them to be single lines: when no audio name and no
  variant path holds a line feed and no video variant path begins with \<open>#\<close>, every line
  that begins with \<open>#EXT-X-STREAM-INF\<close> ends with \<open>,AUDIO="audio"\<close>, there is one such
  line for each video rendition, and with no audio rendition no line begins with
  \<open>#EXT-X-MEDIA\<close>.
\<close>

theorem C10_Master_stream_inf_audio:
  assumes "\<forall>a\<in>set audios. LF \<notin> set (ar_Name a)
             \<and> LF \<notin> set (pg_VariantPlaylist pathGen sourceURL (ar_Name a) StreamAudio)"
    and "\<forall>v\<in>set videos.
             LF \<notin> set (pg_VariantPlaylist pathGen sourceURL (vr_Name v) StreamVideo)
             \<and> \<not> prefix ''#'' (pg_VariantPlaylist pathGen sourceURL (vr_Name v) StreamVideo)"
  shows "(\<forall>l\<in>set (Split (Master pathGen sourceURL videos audios) LF).
            prefix ''#EXT-X-STREAM-INF'' l \<longrightarrow> suffix ('',AUDIO='' @ [DQ] @ ''audio'' @ [DQ]) l)
       \<and> length (filter (prefix ''#EXT-X-STREAM-INF'')
                   (Split (Master pathGen sourceURL videos audios) LF)) = length videos
       \<and> (audios = [] \<longrightarrow>
            (\<forall>l\<in>set (Split (Master pathGen sourceURL videos audios) LF).
               \<not> prefix ''#EXT-X-MEDIA'' l))"
proof -
  let ?uri = "\<lambda>v. pg_VariantPlaylist pathGen sourceURL (vr_Name v) StreamVideo"
  let ?inf = "prefix ''#EXT-X-STREAM-INF''"
  let ?entries = "\<lambda>vs. concat (map (\<lambda>video. [Master_streamInf video, ?uri video]) vs)"
  have lines: "Split (Master pathGen sourceURL videos audios) LF
      = Master_lines pathGen sourceURL videos audios @ [[]]"
    using assms by (intro Master_Split) auto
  have uri: "\<not> ?inf (?uri v) \<and> \<not> prefix ''#EXT-X-MEDIA'' (?uri v)" if "v \<in> set videos" for v
  proof -
    from that assms(2) have "\<not> prefix ''#'' (?uri v)"
      by blast
    then show ?thesis
      by (cases "?uri v") auto
  qed
  have media: "\<not> ?inf (butlast (Master_media pathGen sourceURL a))" for a
    by (simp add: Master_media_def butlast_append)
  have inf: "\<not> prefix ''#EXT-X-MEDIA'' (Master_streamInf v)" for v
    by (simp add: Master_streamInf_def Let_def)
  have count: "length (filter ?inf (?entries vs)) = length vs" if "set vs \<subseteq> set videos" for vs
    using that by (induction vs) (simp_all add: Master_streamInf_prefix uri)
  have audio_lines: "filter ?inf (map (\<lambda>audio. butlast (Master_media pathGen sourceURL audio)) audios) = []"
    by (simp add: media)
  have p1: "\<forall>l\<in>set (Master_lines pathGen sourceURL videos audios @ [[]]).
              ?inf l \<longrightarrow> suffix ('',AUDIO='' @ [DQ] @ ''audio'' @ [DQ]) l"
    using uri media Master_streamInf_suffix
    by (auto simp: Master_lines_def split: if_splits)
  have p2: "length (filter ?inf (Master_lines pathGen sourceURL videos audios @ [[]]))
      = length videos"
    using count [of videos] audio_lines
    by (simp add: Master_lines_def)
  have p3: "audios = [] \<longrightarrow>
      (\<forall>l\<in>set (Master_lines pathGen sourceURL videos audios @ [[]]).
         \<not> prefix ''#EXT-X-MEDIA'' l)"
    using uri inf
    by (auto simp: Master_lines_def)
  from p1 p2 p3 show ?thesis
    unfolding lines by blast
qed

theorem C10_Master_stream_inf_audio_witness:
  "LF \<notin> set ''/variant'' \<and> \<not> prefix ''#'' ''/variant''
   \<and> list_all (\<lambda>l. prefix ''#EXT-X-STREAM-INF'' l
                    \<longrightarrow> suffix ('',AUDIO='' @ [DQ] @ ''audio'' @ [DQ]) l)
       (Split (Master \<lparr>pg_VariantPlaylist = (\<lambda>sourceURL rendition streamType. ''/variant'')\<rparr>
                 ''file:///source''
                 [\<lparr>vr_Name = ''720p'', vr_Width = 1280, vr_Height = 720,
                    vr_Bitrate = 2800000, vr_Method = Transcode\<rparr>] []) LF)
   \<and> length (filter (prefix ''#EXT-X-STREAM-INF'')
       (Split (Master \<lparr>pg_VariantPlaylist = (\<lambda>sourceURL rendition streamType. ''/variant'')\<rparr>
                 ''file:///source''
                 [\<lparr>vr_Name = ''720p'', vr_Width = 1280, vr_Height = 720,
                    vr_Bitrate = 2800000, vr_Method = Transcode\<rparr>] []) LF)) = 1
   \<and> list_all (\<lambda>l. \<not> prefix ''#EXT-X-MEDIA'' l)
       (Split (Master \<lparr>pg_VariantPlaylist = (\<lambda>sourceURL rendition streamType. ''/variant'')\<rparr>
                 ''file:///source''
                 [\<lparr>vr_Name = ''720p'', vr_Width = 1280, vr_Height = 720,
                    vr_Bitrate = 2800000, vr_Method = Transcode\<rparr>] []) LF)"
  using C10_Master_stream_inf_audio [of "[]"
      "\<lparr>pg_VariantPlaylist = (\<lambda>sourceURL rendition streamType. ''/variant'')\<rparr>"
      "''file:///source''"
      "[\<lparr>vr_Name = ''720p'', vr_Width = 1280, vr_Height = 720,
         vr_Bitrate = 2800000, vr_Method = Transcode\<rparr>]"]
  by (simp add: LF_def list_all_iff)

theorem C10_counterexample:
  "(''#EXT-X-STREAM-INF:BANDWIDTH=1'' @ [DQ] @ '',DEFAULT=NO,AUTOSELECT=YES,URI='' @ [DQ]
      @ ''/variant'' @ [DQ])
     \<in> set (Split (Master \<lparr>pg_VariantPlaylist = (\<lambda>sourceURL rendition streamType. ''/variant'')\<rparr>
                     ''file:///source'' []
                     [\<lparr>ar_Name = ''a'' @ [LF] @ ''#EXT-X-STREAM-INF:BANDWIDTH=1'',
                        ar_Codec = ''aac'', ar_Bitrate = 128000, ar_Channels = 2,
                        ar_Method = Transcode\<rparr>]) LF)
   \<and> prefix ''#EXT-X-STREAM-INF''
       (''#EXT-X-STREAM-INF:BANDWIDTH=1'' @ [DQ] @ '',DEFAULT=NO,AUTOSELECT=YES,URI='' @ [DQ]
          @ ''/variant'' @ [DQ])
   \<and> \<not> suffix ('',AUDIO='' @ [DQ] @ ''audio'' @ [DQ])
       (''#EXT-X-STREAM-INF:BANDWIDTH=1'' @ [DQ] @ '',DEFAULT=NO,AUTOSELECT=YES,URI='' @ [DQ]
          @ ''/variant'' @ [DQ])"
  by (simp add: Master_def Master_media_def audioGroupID_def defaultFlag_def LF_def DQ_def
      suffix_to_prefix)

end
